theory Spec2Isabelle
  imports Complex_Main "HOL-Library.Word"
begin

section \<open>Data model\<close>

text \<open>
  The service exchanges detections as Python dictionaries. A bounding box is the
  dictionary \<^verbatim>\<open>{'x': int, 'y': int, 'width': int, 'height': int}\<close>; Python integers are
  unbounded, so the fields are \<^typ>\<open>int\<close>. Python floats are read as the real numbers
  they denote: arithmetic on them is exact here, rounding is not modelled.
\<close>

record bbox =
  bbox_x :: int
  bbox_y :: int
  bbox_width :: int
  bbox_height :: int

text \<open>
  A value decoded by \<^verbatim>\<open>json.loads\<close>. An object is a Python dictionary, kept as the list
  of its items and looked up with \<^const>\<open>map_of\<close>.
\<close>

datatype json =
    JNull
  | JBool bool
  | JInt int
  | JFloat real
  | JStr string
  | JArr "json list"
  | JObj "(string \<times> json) list"

text \<open>
  A detection: \<^verbatim>\<open>{'class': str, 'confidence': float, 'bbox': {...}}\<close>, with the keys
  \<^verbatim>\<open>'source'\<close> (written by the aggregator) and \<^verbatim>\<open>'description'\<close> (written by the GPT
  adapter, any JSON value) present or absent.
\<close>

record detection =
  cls :: string
  confidence :: real
  bbox :: bbox
  source :: "string option"
  description :: "json option"

datatype error =
    ValueError string
  | TypeError
  | AttributeError
  | OverflowError
  | JSONDecodeError
  | Exception string

section \<open>services/ensemble\_aggregator.py\<close>

subsection \<open>calculate\_iou\<close>

definition calculate_iou :: "bbox \<Rightarrow> bbox \<Rightarrow> real" where
  "calculate_iou bbox1 bbox2 =
     (let x1_1 = bbox_x bbox1; y1_1 = bbox_y bbox1;
          x2_1 = x1_1 + bbox_width bbox1; y2_1 = y1_1 + bbox_height bbox1;
          x1_2 = bbox_x bbox2; y1_2 = bbox_y bbox2;
          x2_2 = x1_2 + bbox_width bbox2; y2_2 = y1_2 + bbox_height bbox2;
          x_left = max x1_1 x1_2;
          y_top = max y1_1 y1_2;
          x_right = min x2_1 x2_2;
          y_bottom = min y2_1 y2_2
      in if x_right < x_left \<or> y_bottom < y_top then 0
         else
           let intersection_area = (x_right - x_left) * (y_bottom - y_top);
               bbox1_area = bbox_width bbox1 * bbox_height bbox1;
               bbox2_area = bbox_width bbox2 * bbox_height bbox2;
               union_area = bbox1_area + bbox2_area - intersection_area
           in if union_area > 0 then of_int intersection_area / of_int union_area else 0)"

text \<open>
  The pixels a box covers: the half-open ranges \<open>[x, x + width)\<close> and
  \<open>[y, y + height)\<close>. Two boxes overlap when they share a pixel.
\<close>

definition pixels :: "bbox \<Rightarrow> (int \<times> int) set" where
  "pixels b = {bbox_x b ..< bbox_x b + bbox_width b} \<times> {bbox_y b ..< bbox_y b + bbox_height b}"

subsection \<open>apply\_nms\<close>

record ensemble_aggregator =
  yolo_weight :: real
  gpt_weight :: real
  iou_threshold :: real
  nms_threshold :: real

text \<open>
  The inner \<^verbatim>\<open>for det in sorted_detections\<close> loop: what it leaves in \<^verbatim>\<open>filtered\<close>.
\<close>

definition nms_filter :: "ensemble_aggregator \<Rightarrow> detection \<Rightarrow> detection list \<Rightarrow> detection list" where
  "nms_filter self current sorted_detections =
     filter (\<lambda>det. if cls det = cls current
                    then calculate_iou (bbox current) (bbox det) < nms_threshold self
                    else True) sorted_detections"

text \<open>The \<^verbatim>\<open>while sorted_detections\<close> loop: what it appends to \<^verbatim>\<open>keep\<close>.\<close>

function nms_loop :: "ensemble_aggregator \<Rightarrow> detection list \<Rightarrow> detection list" where
  "nms_loop self [] = []"
| "nms_loop self (current # sorted_detections) =
     current # nms_loop self (nms_filter self current sorted_detections)"
  by pat_completeness auto
termination
  by (relation "measure (\<lambda>(self, ds). length ds)")
     (auto simp: nms_filter_def less_Suc_eq_le)

text \<open>
  \<^verbatim>\<open>sorted(detections, key=lambda x: x['confidence'], reverse=True)\<close> is stable, also
  with \<^verbatim>\<open>reverse=True\<close>: detections of equal confidence keep their order. So is
  \<^const>\<open>sort_key\<close> on the negated confidence.
\<close>

definition apply_nms :: "ensemble_aggregator \<Rightarrow> detection list \<Rightarrow> detection list" where
  "apply_nms self detections =
     (if detections = [] then []
      else nms_loop self (sort_key (\<lambda>x. - confidence x) detections))"

subsection \<open>merge\_detections\<close>

text \<open>Python's \<^verbatim>\<open>int\<close> on a float: truncation towards zero.\<close>

definition py_int :: "real \<Rightarrow> int" where
  "py_int r = (if 0 \<le> r then \<lfloor>r\<rfloor> else \<lceil>r\<rceil>)"

definition merge_detections :: "ensemble_aggregator \<Rightarrow> detection \<Rightarrow> detection \<Rightarrow> detection" where
  "merge_detections self det1 det2 =
     (let merged_confidence = confidence det1 * yolo_weight self + confidence det2 * gpt_weight self;
          merged_bbox = \<lparr>
            bbox_x = py_int (of_int (bbox_x (bbox det1) + bbox_x (bbox det2)) / 2),
            bbox_y = py_int (of_int (bbox_y (bbox det1) + bbox_y (bbox det2)) / 2),
            bbox_width = py_int (of_int (bbox_width (bbox det1) + bbox_width (bbox det2)) / 2),
            bbox_height = py_int (of_int (bbox_height (bbox det1) + bbox_height (bbox det2)) / 2)\<rparr>
      in \<lparr>cls = cls det1, confidence = merged_confidence, bbox = merged_bbox,
          source = Some ''ensemble'', description = None\<rparr>)"

subsection \<open>aggregate\<close>

text \<open>\<^verbatim>\<open>det['source'] = ...\<close>: the detection is stamped in place.\<close>

definition tag_source :: "string \<Rightarrow> detection \<Rightarrow> detection" where
  "tag_source s det = det\<lparr>source := Some s\<rparr>"

text \<open>
  The inner loop \<^verbatim>\<open>for j, gpt_det in enumerate(gpt_results)\<close>, on the state
  \<open>(best_match, best_iou, best_match_idx)\<close>.
\<close>

fun find_best :: "detection \<Rightarrow> (nat \<times> detection) list
    \<Rightarrow> detection option \<times> real \<times> int \<Rightarrow> detection option \<times> real \<times> int" where
  "find_best yolo_det [] st = st"
| "find_best yolo_det ((j, gpt_det) # rest) (best_match, best_iou, best_match_idx) =
     (if cls yolo_det = cls gpt_det
      then (let iou = calculate_iou (bbox yolo_det) (bbox gpt_det)
            in if iou > best_iou
               then find_best yolo_det rest (Some gpt_det, iou, int j)
               else find_best yolo_det rest (best_match, best_iou, best_match_idx))
      else find_best yolo_det rest (best_match, best_iou, best_match_idx))"

text \<open>
  The body of the outer loop \<^verbatim>\<open>for i, yolo_det in enumerate(yolo_results)\<close> up to its
  updates of the state: the merged detection and the index of the GPT detection it took,
  or \<open>None\<close> when the best IoU does not exceed the threshold. When \<open>best_iou\<close> exceeds
  the threshold with \<open>best_match\<close> still \<^verbatim>\<open>None\<close> (a negative threshold),
  \<^verbatim>\<open>merge_detections\<close> subscripts \<^verbatim>\<open>None\<close> and raises \<^verbatim>\<open>TypeError\<close>.
\<close>

definition match_one :: "ensemble_aggregator \<Rightarrow> detection list \<Rightarrow> detection
    \<Rightarrow> error + (detection \<times> int) option" where
  "match_one self gpt_results yolo_det =
     (case find_best yolo_det (enumerate 0 gpt_results) (None, 0, - 1) of
        (best_match, best_iou, best_match_idx) \<Rightarrow>
          if best_iou > iou_threshold self
          then (case best_match of
                  None \<Rightarrow> Inl TypeError
                | Some gpt_det \<Rightarrow>
                    Inr (Some (merge_detections self yolo_det gpt_det, best_match_idx)))
          else Inr None)"

text \<open>
  The outer loop, on the state \<open>(ensemble_detections, matched_yolo, matched_gpt)\<close>.
\<close>

fun match_loop :: "ensemble_aggregator \<Rightarrow> detection list \<Rightarrow> (nat \<times> detection) list
    \<Rightarrow> detection list \<times> nat set \<times> int set
    \<Rightarrow> error + detection list \<times> nat set \<times> int set" where
  "match_loop self gpt_results [] st = Inr st"
| "match_loop self gpt_results ((i, yolo_det) # rest)
       (ensemble_detections, matched_yolo, matched_gpt) =
     (case match_one self gpt_results yolo_det of
        Inl e \<Rightarrow> Inl e
      | Inr None \<Rightarrow>
          match_loop self gpt_results rest (ensemble_detections, matched_yolo, matched_gpt)
      | Inr (Some (merged, best_match_idx)) \<Rightarrow>
          match_loop self gpt_results rest
            (ensemble_detections @ [merged],
             insert i matched_yolo, insert best_match_idx matched_gpt))"

text \<open>The two retention passes over the lists: what each appends to \<^verbatim>\<open>ensemble_detections\<close>.\<close>

definition unmatched_yolo :: "nat set \<Rightarrow> detection list \<Rightarrow> detection list" where
  "unmatched_yolo matched_yolo yolo_results =
     map snd (filter (\<lambda>(i, yolo_det). i \<notin> matched_yolo \<and> confidence yolo_det > 7 / 10)
                (enumerate 0 yolo_results))"

definition unmatched_gpt :: "int set \<Rightarrow> detection list \<Rightarrow> detection list" where
  "unmatched_gpt matched_gpt gpt_results =
     map snd (filter (\<lambda>(j, gpt_det). int j \<notin> matched_gpt \<and> confidence gpt_det > 7 / 10)
                (enumerate 0 gpt_results))"

text \<open>
  \<^verbatim>\<open>ensemble_detections\<close> as it stands before NMS (line 241), together with the two
  sets of matched indices, from the stamped lists.
\<close>

definition candidate_pool :: "ensemble_aggregator \<Rightarrow> detection list \<Rightarrow> detection list
    \<Rightarrow> error + detection list \<times> nat set \<times> int set" where
  "candidate_pool self yolo_results gpt_results =
     (case match_loop self gpt_results (enumerate 0 yolo_results) ([], {}, {}) of
        Inl e \<Rightarrow> Inl e
      | Inr (ensemble_detections, matched_yolo, matched_gpt) \<Rightarrow>
          Inr (ensemble_detections @ unmatched_yolo matched_yolo yolo_results
                 @ unmatched_gpt matched_gpt gpt_results,
               matched_yolo, matched_gpt))"

text \<open>
  \<open>aggregate\<close> returns its result (or the \<^verbatim>\<open>Exception\<close> its handler raises) and leaves
  the caller's two lists stamped: the second component is \<open>(yolo_results, gpt_results)\<close>
  after the call. The pipeline hands over two lists of separate dictionaries, so no
  dictionary is stamped twice.
\<close>

definition aggregate :: "ensemble_aggregator \<Rightarrow> detection list \<Rightarrow> detection list
    \<Rightarrow> (error + detection list) \<times> detection list \<times> detection list" where
  "aggregate self yolo_results gpt_results =
     (let yolo_results = map (tag_source ''yolo'') yolo_results;
          gpt_results = map (tag_source ''gpt'') gpt_results
      in (case candidate_pool self yolo_results gpt_results of
            Inl e \<Rightarrow> Inl (Exception ''Ensemble aggregation failed'')
          | Inr (ensemble_detections, matched_yolo, matched_gpt) \<Rightarrow>
              Inr (apply_nms self ensemble_detections),
          yolo_results, gpt_results))"

subsection \<open>Defaults and test fixtures\<close>

text \<open>The defaults of \<^verbatim>\<open>EnsembleAggregator.__init__\<close>.\<close>

definition default_aggregator :: ensemble_aggregator where
  "default_aggregator =
     \<lparr>yolo_weight = 6 / 10, gpt_weight = 4 / 10, iou_threshold = 5 / 10, nms_threshold = 4 / 10\<rparr>"

text \<open>A detection as a detector hands it over: no \<^verbatim>\<open>'source'\<close>, no \<^verbatim>\<open>'description'\<close>.\<close>

definition raw_detection :: "string \<Rightarrow> real \<Rightarrow> int \<Rightarrow> int \<Rightarrow> int \<Rightarrow> int \<Rightarrow> detection" where
  "raw_detection c p x y w h =
     \<lparr>cls = c, confidence = p,
      bbox = \<lparr>bbox_x = x, bbox_y = y, bbox_width = w, bbox_height = h\<rparr>,
      source = None, description = None\<rparr>"

text \<open>The fixtures of \<^verbatim>\<open>test_ml_service.py\<close>.\<close>

definition sample_yolo_detections :: "detection list" where
  "sample_yolo_detections =
     [raw_detection ''damaged_rivet'' (85 / 100) 100 150 50 60,
      raw_detection ''missing_rivet'' (75 / 100) 200 250 40 50]"

definition sample_gpt_detections :: "detection list" where
  "sample_gpt_detections =
     [raw_detection ''damaged_rivet'' (80 / 100) 105 155 48 58,
      raw_detection ''crack'' (70 / 100) 300 350 60 70]"

definition nms_test_detections :: "detection list" where
  "nms_test_detections =
     [raw_detection ''damaged_rivet'' (85 / 100) 100 100 50 50,
      raw_detection ''damaged_rivet'' (75 / 100) 105 105 50 50,
      raw_detection ''crack'' (80 / 100) 200 200 40 40]"

section \<open>services/gpt\_vision\_client.py\<close>

definition DEFECT_CLASSES :: "string list" where
  "DEFECT_CLASSES =
     [''damaged_rivet'', ''missing_rivet'', ''filiform_corrosion'', ''missing_panel'',
      ''paint_detachment'', ''scratch'', ''composite_damage'', ''random_damage'',
      ''burn_mark'', ''scorch_mark'', ''metal_fatigue'', ''crack'']"

subsection \<open>parse\_response\<close>

text \<open>
  The head of \<^verbatim>\<open>parse_response\<close>: the markdown fence is cut off the stripped text.
  \<^verbatim>\<open>str.strip\<close> is Python's and a parameter of the model; \<^verbatim>\<open>text[7:]\<close>, \<^verbatim>\<open>text[3:]\<close> and
  \<^verbatim>\<open>text[:-3]\<close> are \<^const>\<open>drop\<close> and \<^const>\<open>take\<close>.
\<close>

definition startswith :: "string \<Rightarrow> string \<Rightarrow> bool" where
  "startswith text p = (take (length p) text = p)"

definition endswith :: "string \<Rightarrow> string \<Rightarrow> bool" where
  "endswith text p = (length p \<le> length text \<and> drop (length text - length p) text = p)"

definition fence :: string where
  "fence = [CHR 0x60, CHR 0x60, CHR 0x60]"

definition strip_code_fence :: "(string \<Rightarrow> string) \<Rightarrow> string \<Rightarrow> string" where
  "strip_code_fence strip response_text =
     (let text = strip response_text;
          text = (if startswith text (fence @ ''json'') then drop 7 text
                  else if startswith text fence then drop 3 text
                  else text);
          text = (if endswith text fence then take (length text - 3) text else text)
      in strip text)"

text \<open>
  One round of the loop \<^verbatim>\<open>for det in detections_raw\<close>: \<open>Inr None\<close> is \<^verbatim>\<open>continue\<close>,
  \<open>Inr (Some d)\<close> the detection appended, \<open>Inl e\<close> an exception that leaves the loop.
  \<^verbatim>\<open>float\<close> and \<^verbatim>\<open>int\<close> on a decoded JSON value are Python's and parameters of the
  model; \<^verbatim>\<open>.get\<close> exists on a dictionary only.
\<close>

definition dict_get :: "(string \<times> json) list \<Rightarrow> string \<Rightarrow> json \<Rightarrow> json" where
  "dict_get items k dflt = (case map_of items k of None \<Rightarrow> dflt | Some v \<Rightarrow> v)"

definition parse_bbox :: "(json \<Rightarrow> error + int) \<Rightarrow> json \<Rightarrow> error + bbox" where
  "parse_bbox to_int b =
     (case b of
        JObj items \<Rightarrow>
          (case to_int (dict_get items ''x'' (JInt 0)) of Inl e \<Rightarrow> Inl e | Inr x \<Rightarrow>
           case to_int (dict_get items ''y'' (JInt 0)) of Inl e \<Rightarrow> Inl e | Inr y \<Rightarrow>
           case to_int (dict_get items ''width'' (JInt 0)) of Inl e \<Rightarrow> Inl e | Inr w \<Rightarrow>
           case to_int (dict_get items ''height'' (JInt 0)) of Inl e \<Rightarrow> Inl e | Inr h \<Rightarrow>
             Inr \<lparr>bbox_x = x, bbox_y = y, bbox_width = w, bbox_height = h\<rparr>)
      | _ \<Rightarrow> Inl AttributeError)"

definition parse_detection ::
    "(json \<Rightarrow> error + real) \<Rightarrow> (json \<Rightarrow> error + int) \<Rightarrow> json \<Rightarrow> error + detection option" where
  "parse_detection to_float to_int det =
     (case det of
        JObj items \<Rightarrow>
          (case (map_of items ''class'', map_of items ''confidence'', map_of items ''bbox'') of
             (Some class_name, Some conf, Some b) \<Rightarrow>
               (case class_name of
                  JStr name \<Rightarrow>
                    if name \<notin> set DEFECT_CLASSES then Inr None
                    else (case to_float conf of Inl e \<Rightarrow> Inl e | Inr c \<Rightarrow>
                          case parse_bbox to_int b of Inl e \<Rightarrow> Inl e | Inr bb \<Rightarrow>
                            Inr (Some \<lparr>cls = name, confidence = c, bbox = bb, source = None,
                                       description = map_of items ''description''\<rparr>))
                | _ \<Rightarrow> Inr None)
           | _ \<Rightarrow> Inr None)
      | _ \<Rightarrow> Inr None)"

fun parse_loop :: "(json \<Rightarrow> error + real) \<Rightarrow> (json \<Rightarrow> error + int) \<Rightarrow> json list
    \<Rightarrow> detection list \<Rightarrow> error + detection list" where
  "parse_loop to_float to_int [] detections = Inr detections"
| "parse_loop to_float to_int (det # rest) detections =
     (case parse_detection to_float to_int det of
        Inl e \<Rightarrow> Inl e
      | Inr None \<Rightarrow> parse_loop to_float to_int rest detections
      | Inr (Some detection) \<Rightarrow> parse_loop to_float to_int rest (detections @ [detection]))"

text \<open>
  What \<^verbatim>\<open>for det in detections_raw\<close> runs over: the elements of a list, the keys of a
  dictionary, the characters of a string; any other value is not iterable.
\<close>

definition py_iter :: "json \<Rightarrow> error + json list" where
  "py_iter v =
     (case v of
        JArr xs \<Rightarrow> Inr xs
      | JObj items \<Rightarrow> Inr (map (\<lambda>(k, _). JStr k) items)
      | JStr s \<Rightarrow> Inr (map (\<lambda>c. JStr [c]) s)
      | _ \<Rightarrow> Inl TypeError)"

text \<open>
  The \<^verbatim>\<open>try\<close> block. \<^verbatim>\<open>json.loads\<close> is Python's and a parameter of the model: it returns
  the decoded value or the exception it raises.
\<close>

definition parse_body :: "(string \<Rightarrow> string) \<Rightarrow> (string \<Rightarrow> error + json)
    \<Rightarrow> (json \<Rightarrow> error + real) \<Rightarrow> (json \<Rightarrow> error + int) \<Rightarrow> string \<Rightarrow> error + detection list" where
  "parse_body strip loads to_float to_int response_text =
     (case loads (strip_code_fence strip response_text) of
        Inl e \<Rightarrow> Inl e
      | Inr detections_raw \<Rightarrow>
          (case py_iter detections_raw of
             Inl e \<Rightarrow> Inl e
           | Inr dets \<Rightarrow> parse_loop to_float to_int dets []))"

text \<open>
  The two handlers: \<^verbatim>\<open>except json.JSONDecodeError\<close> and \<^verbatim>\<open>except Exception\<close> both
  return the empty list. Every \<^typ>\<open>error\<close> of the model is an \<^verbatim>\<open>Exception\<close>.
\<close>

definition parse_response :: "(string \<Rightarrow> string) \<Rightarrow> (string \<Rightarrow> error + json)
    \<Rightarrow> (json \<Rightarrow> error + real) \<Rightarrow> (json \<Rightarrow> error + int) \<Rightarrow> string \<Rightarrow> error + detection list" where
  "parse_response strip loads to_float to_int response_text =
     (case parse_body strip loads to_float to_int response_text of
        Inr detections \<Rightarrow> Inr detections
      | Inl e \<Rightarrow> (if e = JSONDecodeError then Inr [] else Inr []))"

subsection \<open>Test doubles\<close>

text \<open>
  Stand-ins for the parameters, as the tests use them: \<^verbatim>\<open>float\<close> and \<^verbatim>\<open>int\<close> on JSON
  numbers, the identity for \<^verbatim>\<open>strip\<close> on a text without outer white space, and a
  decoder that knows a table of texts and rejects every other text.
\<close>

definition number_to_float :: "json \<Rightarrow> error + real" where
  "number_to_float v =
     (case v of JInt i \<Rightarrow> Inr (of_int i) | JFloat r \<Rightarrow> Inr r | _ \<Rightarrow> Inl TypeError)"

definition number_to_int :: "json \<Rightarrow> error + int" where
  "number_to_int v =
     (case v of JInt i \<Rightarrow> Inr i | JFloat r \<Rightarrow> Inr (py_int r) | _ \<Rightarrow> Inl TypeError)"

definition table_loads :: "(string \<times> json) list \<Rightarrow> string \<Rightarrow> error + json" where
  "table_loads table text =
     (case map_of table text of None \<Rightarrow> Inl JSONDecodeError | Some v \<Rightarrow> Inr v)"

definition json_detection :: "string \<Rightarrow> real \<Rightarrow> int \<Rightarrow> int \<Rightarrow> int \<Rightarrow> int \<Rightarrow> json" where
  "json_detection c p x y w h =
     JObj [(''class'', JStr c), (''confidence'', JFloat p),
           (''bbox'', JObj [(''x'', JInt x), (''y'', JInt y), (''width'', JInt w), (''height'', JInt h)])]"

definition sample_responses :: "(string \<times> json) list" where
  "sample_responses =
     [(''invalid class, crack'',
         JArr [json_detection ''invalid_defect_type'' (85 / 100) 100 150 50 60,
               json_detection ''crack'' (75 / 100) 200 250 40 50]),
      (''crack'', JArr [json_detection ''crack'' (75 / 100) 200 250 40 50]),
      (''3'', JInt 3)]"

section \<open>services/image\_preprocessor.py\<close>

record image_preprocessor =
  target_size :: int
  min_size :: int
  max_size :: int

subsection \<open>validate\_dimensions\<close>

text \<open>
  \<^verbatim>\<open>height, width = image.shape[:2]\<close>: the function reads only the shape of the array, so
  the model takes the pair \<open>(height, width)\<close>. The messages carry the formatted numbers in
  the source; the model keeps their fixed prefix.
\<close>

definition validate_dimensions :: "image_preprocessor \<Rightarrow> nat \<times> nat \<Rightarrow> error + bool" where
  "validate_dimensions self shape =
     (let height = int (fst shape); width = int (snd shape)
      in if height < min_size self \<or> width < min_size self
           then Inl (ValueError ''Image dimensions too small'')
         else if height > max_size self \<or> width > max_size self
           then Inl (ValueError ''Image dimensions too large'')
         else Inr True)"

subsection \<open>calculate\_quality\_score\<close>

text \<open>
  \<^verbatim>\<open>cv2.cvtColor(image, cv2.COLOR_BGR2GRAY)\<close> and \<^verbatim>\<open>cv2.Laplacian(gray, cv2.CV_64F)\<close> are
  OpenCV's: they are parameters of the model. The gray image is an array of unsigned
  bytes, the Laplacian response an array of doubles; both are flattened, which changes
  neither numpy's mean nor its variance.
\<close>

definition np_mean :: "real list \<Rightarrow> real" where
  "np_mean a = sum_list a / of_nat (length a)"

definition np_var :: "real list \<Rightarrow> real" where
  "np_var a = np_mean (map (\<lambda>v. \<bar>v - np_mean a\<bar> ^ 2) a)"

definition sharpness_score :: "real list \<Rightarrow> real" where
  "sharpness_score laplacian = (let laplacian_var = np_var laplacian
                                in min (laplacian_var / 1000) 1 * 50)"

definition brightness_score :: "8 word list \<Rightarrow> real" where
  "brightness_score gray =
     (let mean_brightness = np_mean (map (\<lambda>p. real (unat p)) gray);
          brightness_deviation = \<bar>mean_brightness - 128\<bar> / 128
      in (1 - brightness_deviation) * 50)"

definition calculate_quality_score ::
    "('img \<Rightarrow> 8 word list) \<Rightarrow> (8 word list \<Rightarrow> real list) \<Rightarrow> 'img \<Rightarrow> real" where
  "calculate_quality_score cvtColor Laplacian img =
     (let gray = cvtColor img
      in sharpness_score (Laplacian gray) + brightness_score gray)"

section \<open>Intersection over union\<close>

lemma calculate_iou_identical:
  assumes "0 < bbox_width b" "0 < bbox_height b"
  shows "calculate_iou b b = 1"
proof -
  have "0 < bbox_width b * bbox_height b"
    using assms by simp
  then show ?thesis
    using assms by (simp add: calculate_iou_def Let_def)
qed

lemma calculate_iou_disjoint:
  assumes "pixels b1 \<inter> pixels b2 = {}"
  shows "calculate_iou b1 b2 = 0"
proof (rule ccontr)
  let ?xl = "max (bbox_x b1) (bbox_x b2)"
  let ?yt = "max (bbox_y b1) (bbox_y b2)"
  let ?xr = "min (bbox_x b1 + bbox_width b1) (bbox_x b2 + bbox_width b2)"
  let ?yb = "min (bbox_y b1 + bbox_height b1) (bbox_y b2 + bbox_height b2)"
  assume nz: "calculate_iou b1 b2 \<noteq> 0"
  then have guard: "\<not> (?xr < ?xl \<or> ?yb < ?yt)"
    by (auto simp: calculate_iou_def Let_def)
  from nz guard have "(?xr - ?xl) * (?yb - ?yt) \<noteq> 0"
    by (auto simp: calculate_iou_def Let_def split: if_splits)
  with guard have "?xl < ?xr" "?yt < ?yb"
    by auto
  then have "(?xl, ?yt) \<in> pixels b1 \<inter> pixels b2"
    by (auto simp: pixels_def)
  with assms show False
    by blast
qed

lemma calculate_iou_zero_area:
  assumes "bbox_width b1 * bbox_height b1 = 0" "bbox_width b2 * bbox_height b2 = 0"
  shows "calculate_iou b1 b2 = 0"
proof -
  let ?xl = "max (bbox_x b1) (bbox_x b2)"
  let ?yt = "max (bbox_y b1) (bbox_y b2)"
  let ?xr = "min (bbox_x b1 + bbox_width b1) (bbox_x b2 + bbox_width b2)"
  let ?yb = "min (bbox_y b1 + bbox_height b1) (bbox_y b2 + bbox_height b2)"
  show ?thesis
  proof (cases "?xr < ?xl \<or> ?yb < ?yt")
    case True
    then show ?thesis
      by (auto simp: calculate_iou_def Let_def)
  next
    case False
    then have "0 \<le> (?xr - ?xl) * (?yb - ?yt)"
      by (intro mult_nonneg_nonneg) auto
    then have "\<not> 0 < bbox_width b1 * bbox_height b1 + bbox_width b2 * bbox_height b2
                 - (?xr - ?xl) * (?yb - ?yt)"
      unfolding assms by linarith
    then show ?thesis
      unfolding calculate_iou_def Let_def by (simp only: if_False if_cancel)
  qed
qed

text \<open>
  C3, amended. \<open>calculate_iou\<close> returns 1 for two identical boxes of positive width and
  height, returns exactly 0 for two boxes that share no pixel, and returns 0 (it does not
  fail on the division) for two boxes of zero area, whose union area is not positive.
\<close>

theorem calculate_iou_identical_disjoint_zero:
  "(0 < bbox_width b \<and> 0 < bbox_height b \<longrightarrow> calculate_iou b b = 1) \<and>
   (pixels b1 \<inter> pixels b2 = {} \<longrightarrow> calculate_iou b1 b2 = 0) \<and>
   (bbox_width b3 * bbox_height b3 = 0 \<and> bbox_width b4 * bbox_height b4 = 0
      \<longrightarrow> calculate_iou b3 b4 = 0)"
  using calculate_iou_identical [of b] calculate_iou_disjoint [of b1 b2]
    calculate_iou_zero_area [of b3 b4]
  by blast

theorem calculate_iou_identical_disjoint_zero_witness:
  "calculate_iou \<lparr>bbox_x = 100, bbox_y = 100, bbox_width = 50, bbox_height = 50\<rparr>
                 \<lparr>bbox_x = 100, bbox_y = 100, bbox_width = 50, bbox_height = 50\<rparr> = 1 \<and>
   pixels \<lparr>bbox_x = 100, bbox_y = 100, bbox_width = 50, bbox_height = 50\<rparr>
     \<inter> pixels \<lparr>bbox_x = 200, bbox_y = 200, bbox_width = 50, bbox_height = 50\<rparr> = {} \<and>
   calculate_iou \<lparr>bbox_x = 100, bbox_y = 100, bbox_width = 50, bbox_height = 50\<rparr>
                 \<lparr>bbox_x = 200, bbox_y = 200, bbox_width = 50, bbox_height = 50\<rparr> = 0 \<and>
   calculate_iou \<lparr>bbox_x = 7, bbox_y = 9, bbox_width = 0, bbox_height = 4\<rparr>
                 \<lparr>bbox_x = 7, bbox_y = 9, bbox_width = 3, bbox_height = 0\<rparr> = 0"
proof -
  have d: "pixels \<lparr>bbox_x = 100, bbox_y = 100, bbox_width = 50, bbox_height = 50\<rparr>
     \<inter> pixels \<lparr>bbox_x = 200, bbox_y = 200, bbox_width = 50, bbox_height = 50\<rparr> = {}"
    by (auto simp: pixels_def)
  show ?thesis
    using d calculate_iou_identical_disjoint_zero
      [of "\<lparr>bbox_x = 100, bbox_y = 100, bbox_width = 50, bbox_height = 50\<rparr>"
          "\<lparr>bbox_x = 100, bbox_y = 100, bbox_width = 50, bbox_height = 50\<rparr>"
          "\<lparr>bbox_x = 200, bbox_y = 200, bbox_width = 50, bbox_height = 50\<rparr>"
          "\<lparr>bbox_x = 7, bbox_y = 9, bbox_width = 0, bbox_height = 4\<rparr>"
          "\<lparr>bbox_x = 7, bbox_y = 9, bbox_width = 3, bbox_height = 0\<rparr>"]
    by simp
qed

text \<open>
  C3 as stated fails: a box of zero area (the GPT adapter fills a missing width or height
  with 0) compared with itself has union area 0, and \<open>calculate_iou\<close> returns 0, not 1.
\<close>

theorem calculate_iou_identical_counterexample:
  "calculate_iou \<lparr>bbox_x = 100, bbox_y = 150, bbox_width = 0, bbox_height = 0\<rparr>
                 \<lparr>bbox_x = 100, bbox_y = 150, bbox_width = 0, bbox_height = 0\<rparr> \<noteq> 1"
  by (simp add: calculate_iou_def)

section \<open>Non-maximum suppression\<close>

lemma nms_filter_member:
  "det \<in> set (nms_filter self current ds) \<longleftrightarrow>
     det \<in> set ds \<and> \<not> (cls det = cls current \<and>
        nms_threshold self \<le> calculate_iou (bbox current) (bbox det))"
  by (auto simp: nms_filter_def)

lemma nms_loop_subset: "set (nms_loop self ds) \<subseteq> set ds"
proof (induction self ds rule: nms_loop.induct)
  case (1 self)
  then show ?case by simp
next
  case (2 self current ds)
  have "set (nms_filter self current ds) \<subseteq> set ds"
    by (auto simp: nms_filter_member)
  with 2 show ?case by auto
qed

lemma nms_loop_sorted_wrt:
  "sorted_wrt R ds \<Longrightarrow> sorted_wrt R (nms_loop self ds)"
proof (induction self ds rule: nms_loop.induct)
  case (1 self)
  then show ?case by simp
next
  case (2 self current ds)
  from "2.prems" have hd: "\<forall>y \<in> set ds. R current y" and tl: "sorted_wrt R ds"
    by simp_all
  have "sorted_wrt R (nms_filter self current ds)"
    unfolding nms_filter_def using tl by (rule sorted_wrt_filter)
  then have "sorted_wrt R (nms_loop self (nms_filter self current ds))"
    by (rule "2.IH")
  moreover have "\<forall>y \<in> set (nms_loop self (nms_filter self current ds)). R current y"
    using hd nms_loop_subset [of self "nms_filter self current ds"]
    by (auto simp: nms_filter_member)
  ultimately show ?case by simp
qed

lemma nms_loop_suppressed:
  assumes "d \<in> set ds" "d \<notin> set (nms_loop self ds)"
    and "sorted_wrt (\<lambda>a b. confidence b \<le> confidence a) ds"
  shows "\<exists>k \<in> set (nms_loop self ds). cls k = cls d \<and>
           nms_threshold self \<le> calculate_iou (bbox k) (bbox d) \<and>
           confidence d \<le> confidence k"
  using assms
proof (induction self ds rule: nms_loop.induct)
  case (1 self)
  then show ?case by simp
next
  case (2 self current ds)
  from "2.prems" have d: "d \<noteq> current" "d \<in> set ds"
    and out: "d \<notin> set (nms_loop self (nms_filter self current ds))"
    and hd: "\<forall>y \<in> set ds. confidence y \<le> confidence current"
    and tl: "sorted_wrt (\<lambda>a b. confidence b \<le> confidence a) ds"
    by auto
  show ?case
  proof (cases "d \<in> set (nms_filter self current ds)")
    case True
    have "sorted_wrt (\<lambda>a b. confidence b \<le> confidence a) (nms_filter self current ds)"
      unfolding nms_filter_def using tl by (rule sorted_wrt_filter)
    from "2.IH" [OF True out this] show ?thesis by auto
  next
    case False
    with d have "cls d = cls current \<and>
        nms_threshold self \<le> calculate_iou (bbox current) (bbox d)"
      by (simp add: nms_filter_member)
    with hd d show ?thesis by auto
  qed
qed

lemma sort_key_confidence_sorted:
  "sorted_wrt (\<lambda>a b. confidence b \<le> confidence a) (sort_key (\<lambda>x. - confidence x) ds)"
proof -
  have "sorted (map (\<lambda>x. - confidence x) (sort_key (\<lambda>x. - confidence x) ds))"
    by (rule sorted_sort_key)
  then show ?thesis
    by (simp add: sorted_map)
qed

lemma apply_nms_sorted:
  "sorted_wrt (\<lambda>a b. confidence b \<le> confidence a) (apply_nms self ds)"
  by (simp add: apply_nms_def nms_loop_sorted_wrt sort_key_confidence_sorted)

lemma apply_nms_subset: "set (apply_nms self ds) \<subseteq> set ds"
  using nms_loop_subset [of self "sort_key (\<lambda>x. - confidence x) ds"]
  by (auto simp: apply_nms_def)

lemma apply_nms_suppressed:
  assumes "d \<in> set ds" "d \<notin> set (apply_nms self ds)"
  shows "\<exists>k \<in> set (apply_nms self ds). cls k = cls d \<and>
           nms_threshold self \<le> calculate_iou (bbox k) (bbox d) \<and>
           confidence d \<le> confidence k"
proof -
  from assms(1) have ne: "ds \<noteq> []" by auto
  show ?thesis
    using nms_loop_suppressed [of d "sort_key (\<lambda>x. - confidence x) ds" self]
      assms sort_key_confidence_sorted [of ds] ne
    by (simp add: apply_nms_def)
qed

lemma calculate_iou_commute: "calculate_iou b1 b2 = calculate_iou b2 b1"
  by (simp add: calculate_iou_def Let_def max.commute min.commute add.commute)

lemma nms_loop_no_overlap:
  "sorted_wrt (\<lambda>a b. \<not> (cls b = cls a \<and>
        nms_threshold self \<le> calculate_iou (bbox a) (bbox b))) (nms_loop self ds)"
proof (induction self ds rule: nms_loop.induct)
  case (1 self)
  then show ?case by simp
next
  case (2 self current ds)
  have "\<forall>y \<in> set (nms_loop self (nms_filter self current ds)).
          \<not> (cls y = cls current \<and> nms_threshold self \<le> calculate_iou (bbox current) (bbox y))"
    using nms_loop_subset [of self "nms_filter self current ds"]
    by (auto simp: nms_filter_member)
  with 2 show ?case by simp
qed

lemma apply_nms_no_overlap:
  "sorted_wrt (\<lambda>a b. \<not> (cls b = cls a \<and>
        nms_threshold self \<le> calculate_iou (bbox a) (bbox b))) (apply_nms self ds)"
proof (cases "ds = []")
  case True
  then show ?thesis by (simp add: apply_nms_def)
next
  case False
  then have "apply_nms self ds = nms_loop self (sort_key (\<lambda>x. - confidence x) ds)"
    by (simp add: apply_nms_def)
  then show ?thesis
    by (simp only: nms_loop_no_overlap)
qed

lemma apply_nms_discards:
  assumes "k \<in> set (apply_nms self ds)" "d \<noteq> k" "cls d = cls k"
    and "nms_threshold self \<le> calculate_iou (bbox k) (bbox d)"
  shows "d \<notin> set (apply_nms self ds)"
proof
  let ?out = "apply_nms self ds"
  let ?R = "\<lambda>a b. \<not> (cls b = cls a \<and> nms_threshold self \<le> calculate_iou (bbox a) (bbox b))"
  assume "d \<in> set ?out"
  with assms(1) obtain i j where ij: "i < length ?out" "j < length ?out" "?out ! i = k" "?out ! j = d"
    by (auto simp: in_set_conv_nth)
  with assms(2) have "i \<noteq> j" by auto
  then consider "i < j" | "j < i" by linarith
  then show False
  proof cases
    case 1
    from sorted_wrt_nth_less [OF apply_nms_no_overlap 1 ij(2)] ij assms show False
      by simp
  next
    case 2
    from sorted_wrt_nth_less [OF apply_nms_no_overlap 2 ij(1)] ij assms show False
      by (simp add: calculate_iou_commute)
  qed
qed

lemmas eval_defs = aggregate_def candidate_pool_def match_one_def unmatched_yolo_def
  unmatched_gpt_def tag_source_def apply_nms_def nms_filter_def Let_def
  merge_detections_def py_int_def calculate_iou_def raw_detection_def
  default_aggregator_def sample_yolo_detections_def sample_gpt_detections_def
  nms_test_detections_def

text \<open>
  C6. In a round of \<open>apply_nms\<close> the kept detection is the head of what remains, and a
  remaining detection is discarded exactly when it has the class of the kept detection
  and its IoU with it is at least \<open>nms_threshold\<close>. Over the whole run: a detection of
  the input is missing from the result exactly when the result keeps another detection of
  its class, of IoU at least the threshold with it (and that one has no smaller
  confidence); so a detection whose class no other detection has is always kept, and
  the result holds detections of the input only.
\<close>

theorem nms_discards_same_class_overlap:
  "(det \<in> set sorted_detections \<longrightarrow>
      (det \<notin> set (nms_filter self current sorted_detections)) =
        (cls det = cls current \<and>
         nms_threshold self \<le> calculate_iou (bbox current) (bbox det))) \<and>
   nms_loop self (current # sorted_detections)
     = current # nms_loop self (nms_filter self current sorted_detections) \<and>
   (d \<in> set detections \<longrightarrow>
      (d \<notin> set (apply_nms self detections)) =
        (\<exists>k \<in> set (apply_nms self detections). k \<noteq> d \<and> cls k = cls d \<and>
            nms_threshold self \<le> calculate_iou (bbox k) (bbox d) \<and>
            confidence d \<le> confidence k)) \<and>
   (d' \<in> set detections \<and> (\<forall>k \<in> set detections. k \<noteq> d' \<longrightarrow> cls k \<noteq> cls d') \<longrightarrow>
      d' \<in> set (apply_nms self detections)) \<and>
   set (apply_nms self detections) \<subseteq> set detections"
proof (intro conjI impI)
  assume "det \<in> set sorted_detections"
  then show "(det \<notin> set (nms_filter self current sorted_detections)) =
        (cls det = cls current \<and>
         nms_threshold self \<le> calculate_iou (bbox current) (bbox det))"
    by (simp add: nms_filter_member)
next
  show "nms_loop self (current # sorted_detections)
     = current # nms_loop self (nms_filter self current sorted_detections)"
    by simp
next
  assume d: "d \<in> set detections"
  show "(d \<notin> set (apply_nms self detections)) =
        (\<exists>k \<in> set (apply_nms self detections). k \<noteq> d \<and> cls k = cls d \<and>
            nms_threshold self \<le> calculate_iou (bbox k) (bbox d) \<and>
            confidence d \<le> confidence k)"
  proof
    assume out: "d \<notin> set (apply_nms self detections)"
    from apply_nms_suppressed [OF d out] obtain k
      where k: "k \<in> set (apply_nms self detections)" "cls k = cls d"
        "nms_threshold self \<le> calculate_iou (bbox k) (bbox d)" "confidence d \<le> confidence k"
      by blast
    with out have "k \<noteq> d" by blast
    with k show "\<exists>k \<in> set (apply_nms self detections). k \<noteq> d \<and> cls k = cls d \<and>
            nms_threshold self \<le> calculate_iou (bbox k) (bbox d) \<and>
            confidence d \<le> confidence k"
      by blast
  next
    assume "\<exists>k \<in> set (apply_nms self detections). k \<noteq> d \<and> cls k = cls d \<and>
            nms_threshold self \<le> calculate_iou (bbox k) (bbox d) \<and>
            confidence d \<le> confidence k"
    then obtain k where k: "k \<in> set (apply_nms self detections)" "d \<noteq> k" "cls d = cls k"
        "nms_threshold self \<le> calculate_iou (bbox k) (bbox d)"
      by auto
    then show "d \<notin> set (apply_nms self detections)"
      by (rule apply_nms_discards)
  qed
next
  assume a: "d' \<in> set detections \<and> (\<forall>k \<in> set detections. k \<noteq> d' \<longrightarrow> cls k \<noteq> cls d')"
  show "d' \<in> set (apply_nms self detections)"
  proof (rule ccontr)
    assume out: "d' \<notin> set (apply_nms self detections)"
    with a apply_nms_suppressed [of d' detections self]
    obtain k where k: "k \<in> set (apply_nms self detections)" "cls k = cls d'"
      by blast
    with out have "k \<noteq> d'" by blast
    moreover from k(1) have "k \<in> set detections"
      using apply_nms_subset [of self detections] by blast
    ultimately show False
      using a k(2) by blast
  qed
next
  show "set (apply_nms self detections) \<subseteq> set detections"
    by (rule apply_nms_subset)
qed

text \<open>
  The detections of \<^verbatim>\<open>test_apply_nms\<close>: the first rivet is kept, so the second, of IoU
  0.68 with it, is discarded; the crack is kept.
\<close>

theorem nms_discards_same_class_overlap_witness:
  "raw_detection ''damaged_rivet'' (75 / 100) 105 105 50 50
      \<notin> set (nms_filter default_aggregator (raw_detection ''damaged_rivet'' (85 / 100) 100 100 50 50)
                [raw_detection ''crack'' (80 / 100) 200 200 40 40,
                 raw_detection ''damaged_rivet'' (75 / 100) 105 105 50 50]) \<and>
   raw_detection ''damaged_rivet'' (75 / 100) 105 105 50 50
      \<notin> set (apply_nms default_aggregator nms_test_detections) \<and>
   raw_detection ''crack'' (80 / 100) 200 200 40 40
      \<in> set (apply_nms default_aggregator nms_test_detections)"
proof -
  let ?a = "raw_detection ''damaged_rivet'' (85 / 100) 100 100 50 50"
  let ?b = "raw_detection ''damaged_rivet'' (75 / 100) 105 105 50 50"
  let ?c = "raw_detection ''crack'' (80 / 100) 200 200 40 40"
  have e: "apply_nms default_aggregator nms_test_detections = [?a, ?c]"
    by (simp add: eval_defs)
  have ab: "?a \<noteq> ?b"
    by (simp add: raw_detection_def)
  have h1: "?b \<in> set [?c, ?b]"
    by simp
  have h2: "?b \<in> set nms_test_detections"
    by (simp add: nms_test_detections_def)
  have h3: "?c \<in> set nms_test_detections \<and>
            (\<forall>k \<in> set nms_test_detections. k \<noteq> ?c \<longrightarrow> cls k \<noteq> cls ?c)"
    by (simp add: nms_test_detections_def raw_detection_def)
  have r1: "cls ?b = cls ?a \<and>
            nms_threshold default_aggregator \<le> calculate_iou (bbox ?a) (bbox ?b)"
    by (simp add: eval_defs)
  have r2: "?a \<in> set (apply_nms default_aggregator nms_test_detections) \<and> ?a \<noteq> ?b \<and>
            cls ?a = cls ?b \<and>
            nms_threshold default_aggregator \<le> calculate_iou (bbox ?a) (bbox ?b) \<and>
            confidence ?b \<le> confidence ?a"
    using r1 ab unfolding e by (simp add: raw_detection_def)
  then have r2': "\<exists>k \<in> set (apply_nms default_aggregator nms_test_detections). k \<noteq> ?b \<and>
            cls k = cls ?b \<and>
            nms_threshold default_aggregator \<le> calculate_iou (bbox k) (bbox ?b) \<and>
            confidence ?b \<le> confidence k"
    by blast
  note t = nms_discards_same_class_overlap
      [of ?b "[?c, ?b]" default_aggregator ?a ?b nms_test_detections ?c]
  from t have p1: "?b \<in> set [?c, ?b] \<longrightarrow>
      (?b \<notin> set (nms_filter default_aggregator ?a [?c, ?b])) =
        (cls ?b = cls ?a \<and> nms_threshold default_aggregator \<le> calculate_iou (bbox ?a) (bbox ?b))"
    by (rule conjunct1)
  from p1 h1 have q1: "(?b \<notin> set (nms_filter default_aggregator ?a [?c, ?b])) =
        (cls ?b = cls ?a \<and> nms_threshold default_aggregator \<le> calculate_iou (bbox ?a) (bbox ?b))"
    by (rule mp)
  from q1 r1 have w1: "?b \<notin> set (nms_filter default_aggregator ?a [?c, ?b])"
    by (rule iffD2)
  from t h2 have q2: "(?b \<notin> set (apply_nms default_aggregator nms_test_detections)) =
        (\<exists>k \<in> set (apply_nms default_aggregator nms_test_detections). k \<noteq> ?b \<and>
            cls k = cls ?b \<and>
            nms_threshold default_aggregator \<le> calculate_iou (bbox k) (bbox ?b) \<and>
            confidence ?b \<le> confidence k)"
    by (rule mp [OF conjunct1 [OF conjunct2 [OF conjunct2]]])
  from q2 r2' have w2: "?b \<notin> set (apply_nms default_aggregator nms_test_detections)"
    by (rule iffD2)
  from t h3 have w3: "?c \<in> set (apply_nms default_aggregator nms_test_detections)"
    by (rule mp [OF conjunct1 [OF conjunct2 [OF conjunct2 [OF conjunct2]]]])
  from w1 w2 w3 show ?thesis
    by (intro conjI)
qed

section \<open>Cross-detector matching\<close>

lemma find_best_result:
  "find_best y (enumerate n gs) (bm, bi, bidx) = (bm', bi', bidx') \<Longrightarrow>
     (bm' = bm \<and> bi' = bi \<and> bidx' = bidx \<and>
        (\<forall>k<length gs. cls y = cls (gs ! k) \<longrightarrow> calculate_iou (bbox y) (bbox (gs ! k)) \<le> bi))
   \<or> (\<exists>k<length gs. bm' = Some (gs ! k) \<and> bidx' = int (n + k) \<and>
          bi' = calculate_iou (bbox y) (bbox (gs ! k)) \<and> cls y = cls (gs ! k) \<and> bi < bi' \<and>
          (\<forall>k'<length gs. cls y = cls (gs ! k') \<longrightarrow>
              calculate_iou (bbox y) (bbox (gs ! k')) \<le> bi') \<and>
          (\<forall>k'<k. cls y = cls (gs ! k') \<longrightarrow>
              calculate_iou (bbox y) (bbox (gs ! k')) < bi'))"
proof (induction gs arbitrary: n bm bi bidx)
  case Nil
  then show ?case by simp
next
  case (Cons g gs)
  let ?iou = "calculate_iou (bbox y) (bbox g)"
  show ?case
  proof (cases "cls y = cls g \<and> bi < ?iou")
    case True
    with Cons.prems have
      "find_best y (enumerate (Suc n) gs) (Some g, ?iou, int n) = (bm', bi', bidx')"
      by (simp add: Let_def)
    from Cons.IH [OF this] show ?thesis
    proof (elim disjE conjE exE)
      assume a: "bm' = Some g" "bi' = ?iou" "bidx' = int n"
        "\<forall>k<length gs. cls y = cls (gs ! k) \<longrightarrow> calculate_iou (bbox y) (bbox (gs ! k)) \<le> ?iou"
      have "\<forall>k'<length (g # gs). cls y = cls ((g # gs) ! k') \<longrightarrow>
              calculate_iou (bbox y) (bbox ((g # gs) ! k')) \<le> bi'"
        using a by (auto simp: nth_Cons split: nat.splits)
      with a True show ?thesis
        by (intro disjI2 exI [of _ 0]) simp
    next
      fix k
      assume a: "k < length gs" "bm' = Some (gs ! k)" "bidx' = int (Suc n + k)"
        "bi' = calculate_iou (bbox y) (bbox (gs ! k))" "cls y = cls (gs ! k)" "?iou < bi'"
        "\<forall>k'<length gs. cls y = cls (gs ! k') \<longrightarrow> calculate_iou (bbox y) (bbox (gs ! k')) \<le> bi'"
        "\<forall>k'<k. cls y = cls (gs ! k') \<longrightarrow> calculate_iou (bbox y) (bbox (gs ! k')) < bi'"
      have 1: "\<forall>k'<length (g # gs). cls y = cls ((g # gs) ! k') \<longrightarrow>
              calculate_iou (bbox y) (bbox ((g # gs) ! k')) \<le> bi'"
        using a by (auto simp: nth_Cons split: nat.splits)
      have 2: "\<forall>k'<Suc k. cls y = cls ((g # gs) ! k') \<longrightarrow>
              calculate_iou (bbox y) (bbox ((g # gs) ! k')) < bi'"
        using a by (auto simp: nth_Cons split: nat.splits)
      from a True 1 2 show ?thesis
        by (intro disjI2 exI [of _ "Suc k"]) auto
    qed
  next
    case False
    with Cons.prems have
      "find_best y (enumerate (Suc n) gs) (bm, bi, bidx) = (bm', bi', bidx')"
      by (auto simp: Let_def split: if_splits)
    from Cons.IH [OF this] show ?thesis
    proof (elim disjE conjE exE)
      assume a: "bm' = bm" "bi' = bi" "bidx' = bidx"
        "\<forall>k<length gs. cls y = cls (gs ! k) \<longrightarrow> calculate_iou (bbox y) (bbox (gs ! k)) \<le> bi"
      have "\<forall>k<length (g # gs). cls y = cls ((g # gs) ! k) \<longrightarrow>
              calculate_iou (bbox y) (bbox ((g # gs) ! k)) \<le> bi"
        using a False by (auto simp: nth_Cons split: nat.splits)
      with a show ?thesis by blast
    next
      fix k
      assume a: "k < length gs" "bm' = Some (gs ! k)" "bidx' = int (Suc n + k)"
        "bi' = calculate_iou (bbox y) (bbox (gs ! k))" "cls y = cls (gs ! k)" "bi < bi'"
        "\<forall>k'<length gs. cls y = cls (gs ! k') \<longrightarrow> calculate_iou (bbox y) (bbox (gs ! k')) \<le> bi'"
        "\<forall>k'<k. cls y = cls (gs ! k') \<longrightarrow> calculate_iou (bbox y) (bbox (gs ! k')) < bi'"
      have 1: "\<forall>k'<length (g # gs). cls y = cls ((g # gs) ! k') \<longrightarrow>
              calculate_iou (bbox y) (bbox ((g # gs) ! k')) \<le> bi'"
        using a False by (auto simp: nth_Cons split: nat.splits)
      have 2: "\<forall>k'<Suc k. cls y = cls ((g # gs) ! k') \<longrightarrow>
              calculate_iou (bbox y) (bbox ((g # gs) ! k')) < bi'"
        using a False by (auto simp: nth_Cons split: nat.splits)
      from a 1 2 show ?thesis
        by (intro disjI2 exI [of _ "Suc k"]) auto
    qed
  qed
qed

lemma match_one_Some:
  assumes "match_one self G y = Inr (Some (m, idx))"
  shows "\<exists>j<length G. idx = int j \<and> m = merge_detections self y (G ! j) \<and>
           cls y = cls (G ! j) \<and>
           iou_threshold self < calculate_iou (bbox y) (bbox (G ! j)) \<and>
           (\<forall>k<length G. cls y = cls (G ! k) \<longrightarrow>
              calculate_iou (bbox y) (bbox (G ! k)) \<le> calculate_iou (bbox y) (bbox (G ! j))) \<and>
           (\<forall>k<j. cls y = cls (G ! k) \<longrightarrow>
              calculate_iou (bbox y) (bbox (G ! k)) < calculate_iou (bbox y) (bbox (G ! j)))"
proof -
  obtain bm bi bidx where fb: "find_best y (enumerate 0 G) (None, 0, - 1) = (bm, bi, bidx)"
    by (metis prod_cases3)
  with assms obtain g where g: "bm = Some g" "iou_threshold self < bi"
      "m = merge_detections self y g" "idx = bidx"
    by (auto simp: match_one_def split: if_splits option.splits)
  from find_best_result [OF fb] g show ?thesis
    by auto
qed

lemma match_one_None:
  assumes "match_one self G y = Inr None" "k < length G" "cls y = cls (G ! k)"
  shows "calculate_iou (bbox y) (bbox (G ! k)) \<le> iou_threshold self"
proof -
  obtain bm bi bidx where fb: "find_best y (enumerate 0 G) (None, 0, - 1) = (bm, bi, bidx)"
    by (metis prod_cases3)
  with assms(1) have le: "bi \<le> iou_threshold self"
    by (auto simp: match_one_def split: if_splits option.splits)
  from find_best_result [OF fb] assms(2,3) have "calculate_iou (bbox y) (bbox (G ! k)) \<le> bi"
    by auto
  with le show ?thesis by simp
qed

lemma match_one_error:
  assumes "match_one self G y = Inl e"
  shows "iou_threshold self < 0"
proof -
  obtain bm bi bidx where fb: "find_best y (enumerate 0 G) (None, 0, - 1) = (bm, bi, bidx)"
    by (metis prod_cases3)
  with assms have "bm = None" "iou_threshold self < bi"
    by (auto simp: match_one_def split: if_splits option.splits)
  with find_best_result [OF fb] show ?thesis
    by auto
qed

lemma match_loop_result:
  "match_loop self G (enumerate n ys) (ens, my, mg) = Inr (ens', my', mg') \<Longrightarrow>
     ens' = ens @ List.map_filter
        (\<lambda>y. case match_one self G y of Inr (Some (m, idx)) \<Rightarrow> Some m | _ \<Rightarrow> None) ys \<and>
     my' = my \<union> {i. \<exists>y m idx. (i, y) \<in> set (enumerate n ys) \<and>
                        match_one self G y = Inr (Some (m, idx))} \<and>
     mg' = mg \<union> {idx. \<exists>y m. y \<in> set ys \<and> match_one self G y = Inr (Some (m, idx))} \<and>
     (\<forall>y \<in> set ys. \<forall>e. match_one self G y \<noteq> Inl e)"
proof (induction ys arbitrary: n ens my mg)
  case Nil
  then show ?case by (simp add: map_filter_simps)
next
  case (Cons y ys)
  show ?case
  proof (cases "match_one self G y")
    case (Inl e)
    with Cons.prems show ?thesis by simp
  next
    case (Inr r)
    show ?thesis
    proof (cases r)
      case None
      with Inr Cons.prems have
        "match_loop self G (enumerate (Suc n) ys) (ens, my, mg) = Inr (ens', my', mg')"
        by simp
      from Cons.IH [OF this] Inr None show ?thesis
        by (auto simp: map_filter_simps)
    next
      case (Some p)
      obtain m idx where p: "p = (m, idx)" by (cases p)
      with Inr Some Cons.prems have
        "match_loop self G (enumerate (Suc n) ys) (ens @ [m], insert n my, insert idx mg)
           = Inr (ens', my', mg')"
        by simp
      from Cons.IH [OF this] Inr Some p show ?thesis
        by (auto simp: map_filter_simps)
    qed
  qed
qed

lemma matched_eq:
  "(case match_one self G y of Inr (Some (m, idx)) \<Rightarrow> Some m | _ \<Rightarrow> None) = Some m'
     \<longleftrightarrow> (\<exists>idx. match_one self G y = Inr (Some (m', idx)))"
  by (auto split: sum.splits option.splits)

lemma set_map_filter_conv: "set (List.map_filter f xs) = {v. \<exists>x \<in> set xs. f x = Some v}"
  by (induction xs) (auto simp: map_filter_simps split: option.splits)

lemma match_loop_indices:
  assumes "match_loop self G (enumerate 0 Y) ([], {}, {}) = Inr (ens, my, mg)"
  shows "my = {i. i < length Y \<and> (\<exists>m idx. match_one self G (Y ! i) = Inr (Some (m, idx)))}"
    and "mg = {idx. \<exists>i<length Y. \<exists>m. match_one self G (Y ! i) = Inr (Some (m, idx))}"
    and "set ens = {m. \<exists>i<length Y. \<exists>idx. match_one self G (Y ! i) = Inr (Some (m, idx))}"
    and "length ens = card my"
proof -
  note r = match_loop_result [OF assms]
  show my: "my = {i. i < length Y \<and> (\<exists>m idx. match_one self G (Y ! i) = Inr (Some (m, idx)))}"
    using r by (auto simp: in_set_enumerate_eq)
  show "mg = {idx. \<exists>i<length Y. \<exists>m. match_one self G (Y ! i) = Inr (Some (m, idx))}"
    using r by (auto simp: in_set_conv_nth)
  show "set ens = {m. \<exists>i<length Y. \<exists>idx. match_one self G (Y ! i) = Inr (Some (m, idx))}"
  proof -
    have "set ens = {m. \<exists>y \<in> set Y. \<exists>idx. match_one self G y = Inr (Some (m, idx))}"
      using r by (simp add: set_map_filter_conv matched_eq)
    then show ?thesis
      unfolding Bex_def in_set_conv_nth by blast
  qed
  have "length ens = length (filter (\<lambda>y. \<exists>m idx. match_one self G y = Inr (Some (m, idx))) Y)"
    using r by (simp add: map_filter_def matched_eq)
  then show "length ens = card my"
    unfolding my by (simp add: length_filter_conv_card)
qed

lemma match_loop_gpt_card:
  assumes "match_loop self G (enumerate 0 Y) ([], {}, {}) = Inr (ens, my, mg)"
  shows "card mg \<le> card my" and "mg \<subseteq> int ` {..<length G}"
proof -
  note ix = match_loop_indices [OF assms]
  let ?idx = "\<lambda>i. case match_one self G (Y ! i) of Inr (Some (m, idx)) \<Rightarrow> idx | _ \<Rightarrow> 0"
  have fin: "finite my"
    unfolding ix(1) by simp
  have "mg = ?idx ` my"
    unfolding ix(1,2) by (force simp: image_iff)
  then show "card mg \<le> card my"
    using fin by (simp add: card_image_le)
  show "mg \<subseteq> int ` {..<length G}"
    unfolding ix(2) using match_one_Some by blast
qed

lemma match_one_exceeds:
  assumes "0 \<le> iou_threshold self" "j < length G" "cls y = cls (G ! j)"
    and "iou_threshold self < calculate_iou (bbox y) (bbox (G ! j))"
  shows "\<exists>j'<length G. match_one self G y = Inr (Some (merge_detections self y (G ! j'), int j')) \<and>
           cls y = cls (G ! j') \<and>
           iou_threshold self < calculate_iou (bbox y) (bbox (G ! j')) \<and>
           (\<forall>k<length G. cls y = cls (G ! k) \<longrightarrow>
              calculate_iou (bbox y) (bbox (G ! k)) \<le> calculate_iou (bbox y) (bbox (G ! j'))) \<and>
           (\<forall>k<j'. cls y = cls (G ! k) \<longrightarrow>
              calculate_iou (bbox y) (bbox (G ! k)) < calculate_iou (bbox y) (bbox (G ! j')))"
proof (cases "match_one self G y")
  case (Inl e)
  from match_one_error [OF this] assms(1) show ?thesis by simp
next
  case (Inr r)
  show ?thesis
  proof (cases r)
    case None
    with Inr have "match_one self G y = Inr None" by simp
    from match_one_None [OF this assms(2,3)] assms(4) show ?thesis by simp
  next
    case (Some p)
    obtain m idx where "p = (m, idx)" by (cases p)
    with Inr Some have eq: "match_one self G y = Inr (Some (m, idx))" by simp
    from match_one_Some [OF eq] eq show ?thesis by auto
  qed
qed

lemma merge_detections_fields:
  "cls (merge_detections self det1 det2) = cls det1"
  "confidence (merge_detections self det1 det2)
     = confidence det1 * yolo_weight self + confidence det2 * gpt_weight self"
  "source (merge_detections self det1 det2) = Some ''ensemble''"
  "bbox (merge_detections self det1 det2) =
     \<lparr>bbox_x = py_int (of_int (bbox_x (bbox det1) + bbox_x (bbox det2)) / 2),
      bbox_y = py_int (of_int (bbox_y (bbox det1) + bbox_y (bbox det2)) / 2),
      bbox_width = py_int (of_int (bbox_width (bbox det1) + bbox_width (bbox det2)) / 2),
      bbox_height = py_int (of_int (bbox_height (bbox det1) + bbox_height (bbox det2)) / 2)\<rparr>"
  by (simp_all add: merge_detections_def Let_def)

lemma match_loop_sources:
  assumes "match_loop self G (enumerate 0 Y) ([], {}, {}) = Inr (ens, my, mg)" "m \<in> set ens"
  shows "source m = Some ''ensemble''"
proof -
  from assms(2) match_loop_indices(3) [OF assms(1)]
  obtain i idx where "match_one self G (Y ! i) = Inr (Some (m, idx))"
    by blast
  from match_one_Some [OF this] show ?thesis
    by (auto simp: merge_detections_fields)
qed

lemma tag_source_fields:
  "source (tag_source s d) = Some s"
  "confidence (tag_source s d) = confidence d"
  "cls (tag_source s d) = cls d"
  "bbox (tag_source s d) = bbox d"
  "description (tag_source s d) = description d"
  by (simp_all add: tag_source_def)

section \<open>The candidate pool\<close>

lemma unmatched_yolo_set:
  "set (unmatched_yolo my Y) = {d. \<exists>i<length Y. d = Y ! i \<and> i \<notin> my \<and> 7 / 10 < confidence (Y ! i)}"
  unfolding unmatched_yolo_def
  by (auto simp: in_set_enumerate_eq image_iff)

lemma unmatched_gpt_set:
  "set (unmatched_gpt mg G) = {d. \<exists>j<length G. d = G ! j \<and> int j \<notin> mg \<and> 7 / 10 < confidence (G ! j)}"
  unfolding unmatched_gpt_def
  by (auto simp: in_set_enumerate_eq image_iff)

lemma candidate_pool_split:
  assumes "candidate_pool self Y G = Inr (pool, my, mg)"
  obtains ens where "match_loop self G (enumerate 0 Y) ([], {}, {}) = Inr (ens, my, mg)"
    and "pool = ens @ unmatched_yolo my Y @ unmatched_gpt mg G"
  using assms by (auto simp: candidate_pool_def split: sum.splits)

lemma candidate_pool_yolo_member:
  assumes "candidate_pool self (map (tag_source ''yolo'') ys) (map (tag_source ''gpt'') gs)
             = Inr (pool, my, mg)"
    and "i < length ys" "i \<notin> my"
  shows "(tag_source ''yolo'' (ys ! i) \<in> set pool) = (7 / 10 < confidence (ys ! i))"
proof -
  let ?Y = "map (tag_source ''yolo'') ys" and ?G = "map (tag_source ''gpt'') gs"
  let ?d = "tag_source ''yolo'' (ys ! i)"
  from assms(1) obtain ens
    where ml: "match_loop self ?G (enumerate 0 ?Y) ([], {}, {}) = Inr (ens, my, mg)"
      and pool: "pool = ens @ unmatched_yolo my ?Y @ unmatched_gpt mg ?G"
    by (rule candidate_pool_split)
  have 1: "?d \<notin> set ens"
  proof
    assume "?d \<in> set ens"
    from match_loop_sources [OF ml this] show False
      by (simp add: tag_source_fields)
  qed
  have 2: "?d \<notin> set (unmatched_gpt mg ?G)"
  proof
    assume "?d \<in> set (unmatched_gpt mg ?G)"
    then obtain j where "j < length gs" "?d = tag_source ''gpt'' (gs ! j)"
      by (auto simp: unmatched_gpt_set)
    then have "source ?d = source (tag_source ''gpt'' (gs ! j))"
      by simp
    then show False
      by (simp add: tag_source_fields)
  qed
  have 3: "(?d \<in> set (unmatched_yolo my ?Y)) = (7 / 10 < confidence (ys ! i))"
  proof
    assume "?d \<in> set (unmatched_yolo my ?Y)"
    then obtain k where "k < length ys" "?d = tag_source ''yolo'' (ys ! k)"
        "7 / 10 < confidence (tag_source ''yolo'' (ys ! k))"
      by (auto simp: unmatched_yolo_set)
    then have "7 / 10 < confidence ?d"
      by simp
    then show "7 / 10 < confidence (ys ! i)"
      by (simp add: tag_source_fields)
  next
    assume "7 / 10 < confidence (ys ! i)"
    with assms(2,3) show "?d \<in> set (unmatched_yolo my ?Y)"
      by (auto simp: unmatched_yolo_set tag_source_fields)
  qed
  from 1 2 3 show ?thesis
    by (simp add: pool)
qed

lemma candidate_pool_gpt_member:
  assumes "candidate_pool self (map (tag_source ''yolo'') ys) (map (tag_source ''gpt'') gs)
             = Inr (pool, my, mg)"
    and "j < length gs" "int j \<notin> mg"
  shows "(tag_source ''gpt'' (gs ! j) \<in> set pool) = (7 / 10 < confidence (gs ! j))"
proof -
  let ?Y = "map (tag_source ''yolo'') ys" and ?G = "map (tag_source ''gpt'') gs"
  let ?d = "tag_source ''gpt'' (gs ! j)"
  from assms(1) obtain ens
    where ml: "match_loop self ?G (enumerate 0 ?Y) ([], {}, {}) = Inr (ens, my, mg)"
      and pool: "pool = ens @ unmatched_yolo my ?Y @ unmatched_gpt mg ?G"
    by (rule candidate_pool_split)
  have 1: "?d \<notin> set ens"
  proof
    assume "?d \<in> set ens"
    from match_loop_sources [OF ml this] show False
      by (simp add: tag_source_fields)
  qed
  have 2: "?d \<notin> set (unmatched_yolo my ?Y)"
  proof
    assume "?d \<in> set (unmatched_yolo my ?Y)"
    then obtain i where "i < length ys" "?d = tag_source ''yolo'' (ys ! i)"
      by (auto simp: unmatched_yolo_set)
    then have "source ?d = source (tag_source ''yolo'' (ys ! i))"
      by simp
    then show False
      by (simp add: tag_source_fields)
  qed
  have 3: "(?d \<in> set (unmatched_gpt mg ?G)) = (7 / 10 < confidence (gs ! j))"
  proof
    assume "?d \<in> set (unmatched_gpt mg ?G)"
    then obtain k where "k < length gs" "?d = tag_source ''gpt'' (gs ! k)"
        "7 / 10 < confidence (tag_source ''gpt'' (gs ! k))"
      by (auto simp: unmatched_gpt_set)
    then have "7 / 10 < confidence ?d"
      by simp
    then show "7 / 10 < confidence (gs ! j)"
      by (simp add: tag_source_fields)
  next
    assume "7 / 10 < confidence (gs ! j)"
    with assms(2,3) show "?d \<in> set (unmatched_gpt mg ?G)"
      by (auto simp: unmatched_gpt_set tag_source_fields)
  qed
  from 1 2 3 show ?thesis
    by (simp add: pool)
qed

lemma aggregate_result:
  assumes "candidate_pool self (map (tag_source ''yolo'') ys) (map (tag_source ''gpt'') gs)
             = Inr (pool, my, mg)"
  shows "fst (aggregate self ys gs) = Inr (apply_nms self pool)"
  using assms by (simp add: aggregate_def Let_def)

lemma candidate_pool_indices:
  assumes "candidate_pool self Y G = Inr (pool, my, mg)"
  shows "my = {i. i < length Y \<and> (\<exists>m idx. match_one self G (Y ! i) = Inr (Some (m, idx)))}"
    and "mg = {idx. \<exists>i<length Y. \<exists>m. match_one self G (Y ! i) = Inr (Some (m, idx))}"
proof -
  from assms obtain ens
    where ml: "match_loop self G (enumerate 0 Y) ([], {}, {}) = Inr (ens, my, mg)"
    by (rule candidate_pool_split)
  from match_loop_indices(1) [OF ml]
  show "my = {i. i < length Y \<and> (\<exists>m idx. match_one self G (Y ! i) = Inr (Some (m, idx)))}" .
  from match_loop_indices(2) [OF ml]
  show "mg = {idx. \<exists>i<length Y. \<exists>m. match_one self G (Y ! i) = Inr (Some (m, idx))}" .
qed

lemma matched_yolo_not_retained:
  assumes cp: "candidate_pool self (map (tag_source ''yolo'') ys) (map (tag_source ''gpt'') gs)
             = Inr (pool, my, mg)"
    and i: "i < length ys" "i \<in> my"
  shows "tag_source ''yolo'' (ys ! i) \<notin> set pool"
proof
  let ?Y = "map (tag_source ''yolo'') ys" and ?G = "map (tag_source ''gpt'') gs"
  let ?d = "tag_source ''yolo'' (ys ! i)"
  assume mem: "?d \<in> set pool"
  from cp obtain ens
    where ml: "match_loop self ?G (enumerate 0 ?Y) ([], {}, {}) = Inr (ens, my, mg)"
      and pool: "pool = ens @ unmatched_yolo my ?Y @ unmatched_gpt mg ?G"
    by (rule candidate_pool_split)
  have 1: "?d \<notin> set ens"
  proof
    assume "?d \<in> set ens"
    from match_loop_sources [OF ml this] show False
      by (simp add: tag_source_fields)
  qed
  have 2: "?d \<notin> set (unmatched_gpt mg ?G)"
  proof
    assume "?d \<in> set (unmatched_gpt mg ?G)"
    then obtain j where "j < length gs" "?d = tag_source ''gpt'' (gs ! j)"
      by (auto simp: unmatched_gpt_set)
    then have "source ?d = source (tag_source ''gpt'' (gs ! j))"
      by simp
    then show False
      by (simp add: tag_source_fields)
  qed
  from mem 1 2 have "?d \<in> set (unmatched_yolo my ?Y)"
    by (simp add: pool)
  then obtain k where k: "k < length ys" "?d = ?Y ! k" "k \<notin> my"
    by (auto simp: unmatched_yolo_set)
  note my = candidate_pool_indices(1) [OF cp]
  from i my obtain m idx where "match_one self ?G (?Y ! i) = Inr (Some (m, idx))"
    by auto
  with i(1) k(1,2) have "match_one self ?G (?Y ! k) = Inr (Some (m, idx))"
    by simp
  with k(1) have "k \<in> my"
    unfolding my by auto
  with k(3) show False by simp
qed

lemma matched_gpt_not_retained:
  assumes cp: "candidate_pool self (map (tag_source ''yolo'') ys) (map (tag_source ''gpt'') gs)
             = Inr (pool, my, mg)"
    and b: "b < length gs" "int b \<in> mg"
    and mem: "tag_source ''gpt'' (gs ! b) \<in> set pool"
  shows "\<exists>k<length gs. k \<noteq> b \<and> int k \<notin> mg \<and>
           tag_source ''gpt'' (gs ! k) = tag_source ''gpt'' (gs ! b)"
proof -
  let ?Y = "map (tag_source ''yolo'') ys" and ?G = "map (tag_source ''gpt'') gs"
  let ?d = "tag_source ''gpt'' (gs ! b)"
  from cp obtain ens
    where ml: "match_loop self ?G (enumerate 0 ?Y) ([], {}, {}) = Inr (ens, my, mg)"
      and pool: "pool = ens @ unmatched_yolo my ?Y @ unmatched_gpt mg ?G"
    by (rule candidate_pool_split)
  have 1: "?d \<notin> set ens"
  proof
    assume "?d \<in> set ens"
    from match_loop_sources [OF ml this] show False
      by (simp add: tag_source_fields)
  qed
  have 2: "?d \<notin> set (unmatched_yolo my ?Y)"
  proof
    assume "?d \<in> set (unmatched_yolo my ?Y)"
    then obtain i where "i < length ys" "?d = tag_source ''yolo'' (ys ! i)"
      by (auto simp: unmatched_yolo_set)
    then have "source ?d = source (tag_source ''yolo'' (ys ! i))"
      by simp
    then show False
      by (simp add: tag_source_fields)
  qed
  from mem 1 2 have "?d \<in> set (unmatched_gpt mg ?G)"
    by (simp add: pool)
  then obtain k where k: "k < length gs" "?d = ?G ! k" "int k \<notin> mg"
    by (auto simp: unmatched_gpt_set)
  with b(2) have "k \<noteq> b" by auto
  with k show ?thesis
    by (intro exI [of _ k]) simp
qed

lemma filter_source_none:
  assumes "\<forall>d \<in> set xs. source d \<noteq> Some s"
  shows "filter (\<lambda>d. source d = Some s) xs = []"
  using assms by (induction xs) auto

lemma filter_source_all:
  assumes "\<forall>d \<in> set xs. source d = Some s"
  shows "filter (\<lambda>d. source d = Some s) xs = xs"
  using assms by (induction xs) auto

lemma candidate_pool_ensemble_count:
  assumes cp: "candidate_pool self (map (tag_source ''yolo'') ys) (map (tag_source ''gpt'') gs)
             = Inr (pool, my, mg)"
  shows "length (filter (\<lambda>d. source d = Some ''ensemble'') pool) = card my"
proof -
  let ?Y = "map (tag_source ''yolo'') ys" and ?G = "map (tag_source ''gpt'') gs"
  from cp obtain ens
    where ml: "match_loop self ?G (enumerate 0 ?Y) ([], {}, {}) = Inr (ens, my, mg)"
      and pool: "pool = ens @ unmatched_yolo my ?Y @ unmatched_gpt mg ?G"
    by (rule candidate_pool_split)
  have 1: "filter (\<lambda>d. source d = Some ''ensemble'') ens = ens"
    using match_loop_sources [OF ml] by (intro filter_source_all) blast
  have 2: "filter (\<lambda>d. source d = Some ''ensemble'') (unmatched_yolo my ?Y) = []"
    by (intro filter_source_none) (auto simp: unmatched_yolo_set tag_source_fields)
  have 3: "filter (\<lambda>d. source d = Some ''ensemble'') (unmatched_gpt mg ?G) = []"
    by (intro filter_source_none) (auto simp: unmatched_gpt_set tag_source_fields)
  from 1 2 3 match_loop_indices(4) [OF ml] show ?thesis
    by (simp add: pool)
qed

lemma candidate_pool_merged_member:
  assumes cp: "candidate_pool self Y G = Inr (pool, my, mg)"
    and "i < length Y" "match_one self G (Y ! i) = Inr (Some (m, idx))"
  shows "m \<in> set pool" "i \<in> my" "idx \<in> mg"
proof -
  from cp obtain ens
    where ml: "match_loop self G (enumerate 0 Y) ([], {}, {}) = Inr (ens, my, mg)"
      and pool: "pool = ens @ unmatched_yolo my Y @ unmatched_gpt mg G"
    by (rule candidate_pool_split)
  note ix = match_loop_indices [OF ml]
  have "m \<in> set ens"
    unfolding ix(3) using assms(2,3) by blast
  then show "m \<in> set pool"
    by (simp add: pool)
  show "i \<in> my"
    unfolding ix(1) using assms(2,3) by blast
  show "idx \<in> mg"
    unfolding ix(2) using assms(2,3) by blast
qed

lemma aggregate_returns:
  assumes "fst (aggregate self ys gs) = Inr out"
  obtains pool my mg where
    "candidate_pool self (map (tag_source ''yolo'') ys) (map (tag_source ''gpt'') gs)
       = Inr (pool, my, mg)"
    "out = apply_nms self pool"
  using assms by (auto simp: aggregate_def Let_def split: sum.splits)

section \<open>Properties of the matching\<close>

text \<open>
  C1, amended. Each YOLO detection takes part in at most one match: the matching loop
  appends one merged detection per matched YOLO index, and a YOLO index is matched
  exactly when \<open>match_one\<close> merges it with some GPT detection. The choice does not look
  at \<open>matched_gpt\<close>, so a GPT detection may be taken by several YOLO detections: the
  matched GPT indices are indices of the GPT list and are at most as many as the matched
  YOLO indices.
\<close>

theorem match_loop_one_merge_per_yolo:
  assumes "match_loop self gpt_results (enumerate 0 yolo_results) ([], {}, {})
             = Inr (ensemble_detections, matched_yolo, matched_gpt)"
  shows "length ensemble_detections = card matched_yolo \<and>
         matched_yolo \<subseteq> {..<length yolo_results} \<and>
         matched_gpt \<subseteq> int ` {..<length gpt_results} \<and>
         card matched_gpt \<le> card matched_yolo \<and>
         (\<forall>i<length yolo_results.
            (i \<in> matched_yolo) =
              (\<exists>j<length gpt_results.
                 match_one self gpt_results (yolo_results ! i)
                   = Inr (Some (merge_detections self (yolo_results ! i) (gpt_results ! j), int j))))"
proof -
  note ix = match_loop_indices [OF assms]
  have "matched_yolo \<subseteq> {..<length yolo_results}"
    unfolding ix(1) by auto
  moreover have "\<forall>i<length yolo_results.
            (i \<in> matched_yolo) =
              (\<exists>j<length gpt_results.
                 match_one self gpt_results (yolo_results ! i)
                   = Inr (Some (merge_detections self (yolo_results ! i) (gpt_results ! j), int j)))"
    unfolding ix(1) using match_one_Some by fastforce
  ultimately show ?thesis
    using ix(4) match_loop_gpt_card [OF assms] by simp
qed

theorem match_loop_one_merge_per_yolo_witness:
  "match_loop default_aggregator (map (tag_source ''gpt'') sample_gpt_detections)
      (enumerate 0 (map (tag_source ''yolo'') sample_yolo_detections)) ([], {}, {})
     = Inr ([\<lparr>cls = ''damaged_rivet'', confidence = 83 / 100,
              bbox = \<lparr>bbox_x = 102, bbox_y = 152, bbox_width = 49, bbox_height = 59\<rparr>,
              source = Some ''ensemble'', description = None\<rparr>], {0}, {0}) \<and>
   length [\<lparr>cls = ''damaged_rivet'', confidence = 83 / 100,
              bbox = \<lparr>bbox_x = 102, bbox_y = 152, bbox_width = 49, bbox_height = 59\<rparr>,
              source = Some ''ensemble'', description = None\<rparr>] = card {0::nat} \<and>
   card {0::int} \<le> card {0::nat}"
proof -
  have e: "match_loop default_aggregator (map (tag_source ''gpt'') sample_gpt_detections)
      (enumerate 0 (map (tag_source ''yolo'') sample_yolo_detections)) ([], {}, {})
     = Inr ([\<lparr>cls = ''damaged_rivet'', confidence = 83 / 100,
              bbox = \<lparr>bbox_x = 102, bbox_y = 152, bbox_width = 49, bbox_height = 59\<rparr>,
              source = Some ''ensemble'', description = None\<rparr>], {0}, {0})"
    by (simp add: eval_defs)
  from e match_loop_one_merge_per_yolo [OF e] show ?thesis
    by simp
qed

text \<open>
  C1 as stated fails: two YOLO detections of a crack, each of IoU 0.6 with the one GPT
  detection, are both merged with it. The pool holds two ensemble detections and
  \<open>matched_gpt\<close> is \<open>{0}\<close>.
\<close>

theorem gpt_detection_matched_twice_counterexample:
  "match_one default_aggregator
      (map (tag_source ''gpt'') [raw_detection ''crack'' (90 / 100) 0 0 100 100])
      (tag_source ''yolo'' (raw_detection ''crack'' (85 / 100) 0 0 100 60))
     = Inr (Some (\<lparr>cls = ''crack'', confidence = 87 / 100,
                   bbox = \<lparr>bbox_x = 0, bbox_y = 0, bbox_width = 100, bbox_height = 80\<rparr>,
                   source = Some ''ensemble'', description = None\<rparr>, 0)) \<and>
   match_one default_aggregator
      (map (tag_source ''gpt'') [raw_detection ''crack'' (90 / 100) 0 0 100 100])
      (tag_source ''yolo'' (raw_detection ''crack'' (80 / 100) 0 40 100 60))
     = Inr (Some (\<lparr>cls = ''crack'', confidence = 84 / 100,
                   bbox = \<lparr>bbox_x = 0, bbox_y = 20, bbox_width = 100, bbox_height = 80\<rparr>,
                   source = Some ''ensemble'', description = None\<rparr>, 0)) \<and>
   candidate_pool default_aggregator
      (map (tag_source ''yolo'')
         [raw_detection ''crack'' (85 / 100) 0 0 100 60,
          raw_detection ''crack'' (80 / 100) 0 40 100 60])
      (map (tag_source ''gpt'') [raw_detection ''crack'' (90 / 100) 0 0 100 100])
     = Inr ([\<lparr>cls = ''crack'', confidence = 87 / 100,
              bbox = \<lparr>bbox_x = 0, bbox_y = 0, bbox_width = 100, bbox_height = 80\<rparr>,
              source = Some ''ensemble'', description = None\<rparr>,
             \<lparr>cls = ''crack'', confidence = 84 / 100,
              bbox = \<lparr>bbox_x = 0, bbox_y = 20, bbox_width = 100, bbox_height = 80\<rparr>,
              source = Some ''ensemble'', description = None\<rparr>], {0, 1}, {0})"
  by (auto simp add: eval_defs)

text \<open>
  C4, amended. For a threshold that is not negative: when some GPT detection of the class
  of a YOLO detection has an IoU with it above \<open>iou_threshold\<close>, \<open>aggregate\<close> replaces the
  pair by one merged detection. The YOLO detection is merged with a GPT detection of its
  class of the highest IoU; both are marked as matched; the merged detection is in the
  candidate pool, which holds as many ensemble detections as there are matched YOLO
  detections; the stamped YOLO detection is not in the pool, and the stamped GPT
  detection is there only when an equal GPT detection at another index stayed
  unmatched. The merged confidence is \<open>confA * yolo_weight + confB * gpt_weight\<close>, the
  class is the YOLO detection's, the source is \<^verbatim>\<open>'ensemble'\<close>, and each coordinate of the
  box is the mean of the two coordinates truncated towards zero by \<^verbatim>\<open>int\<close>.
\<close>

theorem aggregate_merges_best_match:
  assumes "0 \<le> iou_threshold self"
    and "candidate_pool self (map (tag_source ''yolo'') yolo_results)
           (map (tag_source ''gpt'') gpt_results) = Inr (pool, matched_yolo, matched_gpt)"
    and "i < length yolo_results" "j < length gpt_results"
    and "cls (yolo_results ! i) = cls (gpt_results ! j)"
    and "iou_threshold self < calculate_iou (bbox (yolo_results ! i)) (bbox (gpt_results ! j))"
  shows "\<exists>b<length gpt_results. \<exists>merged.
           cls (gpt_results ! b) = cls (yolo_results ! i) \<and>
           (\<forall>k<length gpt_results. cls (yolo_results ! i) = cls (gpt_results ! k) \<longrightarrow>
              calculate_iou (bbox (yolo_results ! i)) (bbox (gpt_results ! k))
                \<le> calculate_iou (bbox (yolo_results ! i)) (bbox (gpt_results ! b))) \<and>
           match_one self (map (tag_source ''gpt'') gpt_results)
               (tag_source ''yolo'' (yolo_results ! i)) = Inr (Some (merged, int b)) \<and>
           i \<in> matched_yolo \<and> int b \<in> matched_gpt \<and>
           merged \<in> set pool \<and>
           length (filter (\<lambda>d. source d = Some ''ensemble'') pool) = card matched_yolo \<and>
           tag_source ''yolo'' (yolo_results ! i) \<notin> set pool \<and>
           (tag_source ''gpt'' (gpt_results ! b) \<in> set pool \<longrightarrow>
              (\<exists>k<length gpt_results. k \<noteq> b \<and> int k \<notin> matched_gpt \<and>
                 tag_source ''gpt'' (gpt_results ! k) = tag_source ''gpt'' (gpt_results ! b))) \<and>
           confidence merged = confidence (yolo_results ! i) * yolo_weight self
                                 + confidence (gpt_results ! b) * gpt_weight self \<and>
           bbox merged =
             \<lparr>bbox_x = py_int (of_int (bbox_x (bbox (yolo_results ! i))
                                          + bbox_x (bbox (gpt_results ! b))) / 2),
              bbox_y = py_int (of_int (bbox_y (bbox (yolo_results ! i))
                                          + bbox_y (bbox (gpt_results ! b))) / 2),
              bbox_width = py_int (of_int (bbox_width (bbox (yolo_results ! i))
                                              + bbox_width (bbox (gpt_results ! b))) / 2),
              bbox_height = py_int (of_int (bbox_height (bbox (yolo_results ! i))
                                               + bbox_height (bbox (gpt_results ! b))) / 2)\<rparr> \<and>
           cls merged = cls (yolo_results ! i) \<and>
           source merged = Some ''ensemble''"
proof -
  let ?Y = "map (tag_source ''yolo'') yolo_results"
  let ?G = "map (tag_source ''gpt'') gpt_results"
  have j: "j < length ?G" and i: "i < length ?Y"
    using assms(3,4) by simp_all
  have c: "cls (?Y ! i) = cls (?G ! j)"
    using assms(3,4,5) by (simp add: tag_source_fields)
  have t: "iou_threshold self < calculate_iou (bbox (?Y ! i)) (bbox (?G ! j))"
    using assms(3,4,6) by (simp add: tag_source_fields)
  from match_one_exceeds [OF assms(1) j c t]
  obtain b where b: "b < length ?G"
    "match_one self ?G (?Y ! i) = Inr (Some (merge_detections self (?Y ! i) (?G ! b), int b))"
    "cls (?Y ! i) = cls (?G ! b)"
    "\<forall>k<length ?G. cls (?Y ! i) = cls (?G ! k) \<longrightarrow>
              calculate_iou (bbox (?Y ! i)) (bbox (?G ! k))
                \<le> calculate_iou (bbox (?Y ! i)) (bbox (?G ! b))"
    by blast
  let ?m = "merge_detections self (?Y ! i) (?G ! b)"
  have bl: "b < length gpt_results"
    using b(1) by simp
  note mem = candidate_pool_merged_member [OF assms(2) i b(2)]
  have best: "\<forall>k<length gpt_results. cls (yolo_results ! i) = cls (gpt_results ! k) \<longrightarrow>
              calculate_iou (bbox (yolo_results ! i)) (bbox (gpt_results ! k))
                \<le> calculate_iou (bbox (yolo_results ! i)) (bbox (gpt_results ! b))"
    using b(4) bl assms(3) by (simp add: tag_source_fields)
  have mo: "match_one self ?G (tag_source ''yolo'' (yolo_results ! i)) = Inr (Some (?m, int b))"
    using b(2) assms(3) by simp
  have ny: "tag_source ''yolo'' (yolo_results ! i) \<notin> set pool"
    using matched_yolo_not_retained [OF assms(2,3) mem(2)] .
  have ng: "tag_source ''gpt'' (gpt_results ! b) \<in> set pool \<longrightarrow>
              (\<exists>k<length gpt_results. k \<noteq> b \<and> int k \<notin> matched_gpt \<and>
                 tag_source ''gpt'' (gpt_results ! k) = tag_source ''gpt'' (gpt_results ! b))"
    using matched_gpt_not_retained [OF assms(2) bl mem(3)] by blast
  have f: "confidence ?m = confidence (yolo_results ! i) * yolo_weight self
                                 + confidence (gpt_results ! b) * gpt_weight self"
    "cls ?m = cls (yolo_results ! i)" "source ?m = Some ''ensemble''"
    "cls (gpt_results ! b) = cls (yolo_results ! i)"
    "bbox ?m =
             \<lparr>bbox_x = py_int (of_int (bbox_x (bbox (yolo_results ! i))
                                          + bbox_x (bbox (gpt_results ! b))) / 2),
              bbox_y = py_int (of_int (bbox_y (bbox (yolo_results ! i))
                                          + bbox_y (bbox (gpt_results ! b))) / 2),
              bbox_width = py_int (of_int (bbox_width (bbox (yolo_results ! i))
                                              + bbox_width (bbox (gpt_results ! b))) / 2),
              bbox_height = py_int (of_int (bbox_height (bbox (yolo_results ! i))
                                               + bbox_height (bbox (gpt_results ! b))) / 2)\<rparr>"
    using b(3) bl assms(3) by (simp_all add: merge_detections_fields tag_source_fields)
  show ?thesis
    using bl best mo mem ny ng f candidate_pool_ensemble_count [OF assms(2)]
    by (intro exI [of _ b] exI [of _ ?m]) simp
qed

text \<open>
  The fixtures of the tests: the two rivets match, the merged detection is in the pool
  and the stamped YOLO rivet is not.
\<close>

theorem aggregate_merges_best_match_witness:
  "\<exists>b<length sample_gpt_detections. \<exists>merged.
      match_one default_aggregator (map (tag_source ''gpt'') sample_gpt_detections)
        (tag_source ''yolo'' (sample_yolo_detections ! 0)) = Inr (Some (merged, int b)) \<and>
      merged \<in> set [\<lparr>cls = ''damaged_rivet'', confidence = 83 / 100,
              bbox = \<lparr>bbox_x = 102, bbox_y = 152, bbox_width = 49, bbox_height = 59\<rparr>,
              source = Some ''ensemble'', description = None\<rparr>,
             \<lparr>cls = ''missing_rivet'', confidence = 75 / 100,
              bbox = \<lparr>bbox_x = 200, bbox_y = 250, bbox_width = 40, bbox_height = 50\<rparr>,
              source = Some ''yolo'', description = None\<rparr>] \<and>
      tag_source ''yolo'' (sample_yolo_detections ! 0)
        \<notin> set [\<lparr>cls = ''damaged_rivet'', confidence = 83 / 100,
              bbox = \<lparr>bbox_x = 102, bbox_y = 152, bbox_width = 49, bbox_height = 59\<rparr>,
              source = Some ''ensemble'', description = None\<rparr>,
             \<lparr>cls = ''missing_rivet'', confidence = 75 / 100,
              bbox = \<lparr>bbox_x = 200, bbox_y = 250, bbox_width = 40, bbox_height = 50\<rparr>,
              source = Some ''yolo'', description = None\<rparr>] \<and>
      source merged = Some ''ensemble''"
proof -
  let ?Y = "map (tag_source ''yolo'') sample_yolo_detections"
  let ?G = "map (tag_source ''gpt'') sample_gpt_detections"
  let ?pool = "[\<lparr>cls = ''damaged_rivet'', confidence = 83 / 100,
              bbox = \<lparr>bbox_x = 102, bbox_y = 152, bbox_width = 49, bbox_height = 59\<rparr>,
              source = Some ''ensemble'', description = None\<rparr>,
             \<lparr>cls = ''missing_rivet'', confidence = 75 / 100,
              bbox = \<lparr>bbox_x = 200, bbox_y = 250, bbox_width = 40, bbox_height = 50\<rparr>,
              source = Some ''yolo'', description = None\<rparr>]"
  have h1: "0 \<le> iou_threshold default_aggregator"
    by (simp add: default_aggregator_def)
  have h2: "candidate_pool default_aggregator ?Y ?G = Inr (?pool, {0}, {0})"
    by (simp add: eval_defs)
  have h3: "0 < length sample_yolo_detections" and h4: "0 < length sample_gpt_detections"
    by (simp_all add: sample_yolo_detections_def sample_gpt_detections_def)
  have h5: "cls (sample_yolo_detections ! 0) = cls (sample_gpt_detections ! 0)"
    by (simp add: eval_defs)
  have h6: "iou_threshold default_aggregator
      < calculate_iou (bbox (sample_yolo_detections ! 0)) (bbox (sample_gpt_detections ! 0))"
    by (simp add: eval_defs)
  from aggregate_merges_best_match [OF h1 h2 h3 h4 h5 h6] show ?thesis
    by blast
qed

text \<open>
  C4 as stated fails twice. The two rivets of the fixtures match, the merged \<open>x\<close> is
  102 and the mean of 100 and 105 is 102.5. And with the threshold \<open>-0.1\<close> a YOLO crack
  whose best IoU against the GPT cracks is 0, above the threshold, is not merged:
  \<open>best_match\<close> is still \<^verbatim>\<open>None\<close> and \<open>aggregate\<close> raises.
\<close>

theorem merged_bbox_not_mean_counterexample:
  "match_one default_aggregator
      [tag_source ''gpt'' (raw_detection ''damaged_rivet'' (80 / 100) 105 155 48 58)]
      (tag_source ''yolo'' (raw_detection ''damaged_rivet'' (85 / 100) 100 150 50 60))
     = Inr (Some (\<lparr>cls = ''damaged_rivet'', confidence = 83 / 100,
                   bbox = \<lparr>bbox_x = 102, bbox_y = 152, bbox_width = 49, bbox_height = 59\<rparr>,
                   source = Some ''ensemble'', description = None\<rparr>, 0)) \<and>
   real_of_int (bbox_x (bbox (merge_detections default_aggregator
       (tag_source ''yolo'' (raw_detection ''damaged_rivet'' (85 / 100) 100 150 50 60))
       (tag_source ''gpt'' (raw_detection ''damaged_rivet'' (80 / 100) 105 155 48 58)))))
     \<noteq> (real_of_int (bbox_x (bbox (raw_detection ''damaged_rivet'' (85 / 100) 100 150 50 60)))
          + real_of_int (bbox_x (bbox (raw_detection ''damaged_rivet'' (80 / 100) 105 155 48 58)))) / 2 \<and>
   iou_threshold \<lparr>yolo_weight = 6 / 10, gpt_weight = 4 / 10, iou_threshold = - (1 / 10),
                   nms_threshold = 4 / 10\<rparr>
     < calculate_iou (bbox (raw_detection ''crack'' (85 / 100) 100 100 50 50))
                     (bbox (raw_detection ''crack'' (75 / 100) 300 300 40 40)) \<and>
   match_one \<lparr>yolo_weight = 6 / 10, gpt_weight = 4 / 10, iou_threshold = - (1 / 10),
               nms_threshold = 4 / 10\<rparr>
      [tag_source ''gpt'' (raw_detection ''crack'' (75 / 100) 300 300 40 40)]
      (tag_source ''yolo'' (raw_detection ''crack'' (85 / 100) 100 100 50 50))
     = Inl TypeError \<and>
   fst (aggregate \<lparr>yolo_weight = 6 / 10, gpt_weight = 4 / 10, iou_threshold = - (1 / 10),
                    nms_threshold = 4 / 10\<rparr>
          [raw_detection ''crack'' (85 / 100) 100 100 50 50]
          [raw_detection ''crack'' (75 / 100) 300 300 40 40])
     = Inl (Exception ''Ensemble aggregation failed'')"
  by (simp add: eval_defs)

section \<open>Retention of unmatched detections\<close>

text \<open>
  C5. When \<open>aggregate\<close> returns, its candidate pool is the one of \<open>candidate_pool\<close>, whose
  matched YOLO indices are those that \<open>match_one\<close> merges and whose matched GPT indices
  are those a merge took. A detection of either detector whose index is not matched is
  in the candidate pool exactly when its confidence is greater than 0.7; one of
  confidence 0.7 or less is not in the result of \<open>aggregate\<close>.
\<close>

theorem unmatched_retention:
  assumes "fst (aggregate self yolo_results gpt_results) = Inr final_detections"
  shows "\<exists>pool matched_yolo matched_gpt.
      candidate_pool self (map (tag_source ''yolo'') yolo_results)
        (map (tag_source ''gpt'') gpt_results) = Inr (pool, matched_yolo, matched_gpt) \<and>
      final_detections = apply_nms self pool \<and>
      matched_yolo = {i. i < length yolo_results \<and>
         (\<exists>m idx. match_one self (map (tag_source ''gpt'') gpt_results)
                     (tag_source ''yolo'' (yolo_results ! i)) = Inr (Some (m, idx)))} \<and>
      matched_gpt = {idx. \<exists>i<length yolo_results.
         \<exists>m. match_one self (map (tag_source ''gpt'') gpt_results)
                (tag_source ''yolo'' (yolo_results ! i)) = Inr (Some (m, idx))} \<and>
      (\<forall>i<length yolo_results. i \<notin> matched_yolo \<longrightarrow>
         (tag_source ''yolo'' (yolo_results ! i) \<in> set pool)
           = (7 / 10 < confidence (yolo_results ! i))) \<and>
      (\<forall>j<length gpt_results. int j \<notin> matched_gpt \<longrightarrow>
         (tag_source ''gpt'' (gpt_results ! j) \<in> set pool)
           = (7 / 10 < confidence (gpt_results ! j))) \<and>
      (\<forall>i<length yolo_results.
         i \<notin> matched_yolo \<and> confidence (yolo_results ! i) \<le> 7 / 10 \<longrightarrow>
           tag_source ''yolo'' (yolo_results ! i) \<notin> set final_detections) \<and>
      (\<forall>j<length gpt_results.
         int j \<notin> matched_gpt \<and> confidence (gpt_results ! j) \<le> 7 / 10 \<longrightarrow>
           tag_source ''gpt'' (gpt_results ! j) \<notin> set final_detections)"
proof -
  let ?Y = "map (tag_source ''yolo'') yolo_results"
  let ?G = "map (tag_source ''gpt'') gpt_results"
  from assms obtain pool my mg
    where cp: "candidate_pool self ?Y ?G = Inr (pool, my, mg)"
      and out: "final_detections = apply_nms self pool"
    by (rule aggregate_returns)
  have sub: "set final_detections \<subseteq> set pool"
    unfolding out by (rule apply_nms_subset)
  have my: "my = {i. i < length yolo_results \<and>
         (\<exists>m idx. match_one self ?G (tag_source ''yolo'' (yolo_results ! i)) = Inr (Some (m, idx)))}"
    unfolding candidate_pool_indices(1) [OF cp] by auto
  have mg: "mg = {idx. \<exists>i<length yolo_results.
         \<exists>m. match_one self ?G (tag_source ''yolo'' (yolo_results ! i)) = Inr (Some (m, idx))}"
    unfolding candidate_pool_indices(2) [OF cp] by auto
  have y: "\<forall>i<length yolo_results. i \<notin> my \<longrightarrow>
         (tag_source ''yolo'' (yolo_results ! i) \<in> set pool)
           = (7 / 10 < confidence (yolo_results ! i))"
    using candidate_pool_yolo_member [OF cp] by blast
  have g: "\<forall>j<length gpt_results. int j \<notin> mg \<longrightarrow>
         (tag_source ''gpt'' (gpt_results ! j) \<in> set pool)
           = (7 / 10 < confidence (gpt_results ! j))"
    using candidate_pool_gpt_member [OF cp] by blast
  have y': "\<forall>i<length yolo_results.
         i \<notin> my \<and> confidence (yolo_results ! i) \<le> 7 / 10 \<longrightarrow>
           tag_source ''yolo'' (yolo_results ! i) \<notin> set final_detections"
  proof (intro allI impI)
    fix i assume "i < length yolo_results"
      "i \<notin> my \<and> confidence (yolo_results ! i) \<le> 7 / 10"
    with y have "tag_source ''yolo'' (yolo_results ! i) \<notin> set pool"
      by auto
    with sub show "tag_source ''yolo'' (yolo_results ! i) \<notin> set final_detections"
      by blast
  qed
  have g': "\<forall>j<length gpt_results.
         int j \<notin> mg \<and> confidence (gpt_results ! j) \<le> 7 / 10 \<longrightarrow>
           tag_source ''gpt'' (gpt_results ! j) \<notin> set final_detections"
  proof (intro allI impI)
    fix j assume "j < length gpt_results"
      "int j \<notin> mg \<and> confidence (gpt_results ! j) \<le> 7 / 10"
    with g have "tag_source ''gpt'' (gpt_results ! j) \<notin> set pool"
      by auto
    with sub show "tag_source ''gpt'' (gpt_results ! j) \<notin> set final_detections"
      by blast
  qed
  from cp out my mg y g y' g' show ?thesis
    by (intro exI [of _ pool] exI [of _ my] exI [of _ mg] conjI)
qed

text \<open>
  The fixtures of the tests: the missing rivet (0.75) is unmatched and retained, the
  crack (0.70) is unmatched and dropped.
\<close>

theorem unmatched_retention_witness:
  "\<exists>pool matched_yolo matched_gpt.
      candidate_pool default_aggregator (map (tag_source ''yolo'') sample_yolo_detections)
        (map (tag_source ''gpt'') sample_gpt_detections) = Inr (pool, matched_yolo, matched_gpt) \<and>
      1 \<notin> matched_yolo \<and> int 1 \<notin> matched_gpt \<and>
      tag_source ''yolo'' (sample_yolo_detections ! 1) \<in> set pool \<and>
      tag_source ''gpt'' (sample_gpt_detections ! 1) \<notin> set pool \<and>
      tag_source ''gpt'' (sample_gpt_detections ! 1)
        \<notin> set [\<lparr>cls = ''damaged_rivet'', confidence = 83 / 100,
                  bbox = \<lparr>bbox_x = 102, bbox_y = 152, bbox_width = 49, bbox_height = 59\<rparr>,
                  source = Some ''ensemble'', description = None\<rparr>,
                 \<lparr>cls = ''missing_rivet'', confidence = 75 / 100,
                  bbox = \<lparr>bbox_x = 200, bbox_y = 250, bbox_width = 40, bbox_height = 50\<rparr>,
                  source = Some ''yolo'', description = None\<rparr>]"
proof -
  let ?Y = "map (tag_source ''yolo'') sample_yolo_detections"
  let ?G = "map (tag_source ''gpt'') sample_gpt_detections"
  let ?final = "[\<lparr>cls = ''damaged_rivet'', confidence = 83 / 100,
                  bbox = \<lparr>bbox_x = 102, bbox_y = 152, bbox_width = 49, bbox_height = 59\<rparr>,
                  source = Some ''ensemble'', description = None\<rparr>,
                 \<lparr>cls = ''missing_rivet'', confidence = 75 / 100,
                  bbox = \<lparr>bbox_x = 200, bbox_y = 250, bbox_width = 40, bbox_height = 50\<rparr>,
                  source = Some ''yolo'', description = None\<rparr>]"
  have e: "fst (aggregate default_aggregator sample_yolo_detections sample_gpt_detections)
             = Inr ?final"
    by (simp add: eval_defs)
  have m0: "\<exists>m. match_one default_aggregator ?G (tag_source ''yolo'' (sample_yolo_detections ! 0))
              = Inr (Some (m, 0))"
    by (simp add: eval_defs)
  have m1: "match_one default_aggregator ?G (tag_source ''yolo'' (sample_yolo_detections ! 1))
              = Inr None"
    by (simp add: eval_defs)
  have len: "length sample_yolo_detections = 2" "length sample_gpt_detections = 2"
    by (simp_all add: sample_yolo_detections_def sample_gpt_detections_def)
  have c: "7 / 10 < confidence (sample_yolo_detections ! 1)"
      "confidence (sample_gpt_detections ! 1) \<le> 7 / 10"
    by (simp_all add: sample_yolo_detections_def sample_gpt_detections_def raw_detection_def)
  from unmatched_retention [OF e] obtain pool my mg
    where cp: "candidate_pool default_aggregator ?Y ?G = Inr (pool, my, mg)"
      and my: "my = {i. i < length sample_yolo_detections \<and>
         (\<exists>m idx. match_one default_aggregator ?G
                     (tag_source ''yolo'' (sample_yolo_detections ! i)) = Inr (Some (m, idx)))}"
      and mg: "mg = {idx. \<exists>i<length sample_yolo_detections.
         \<exists>m. match_one default_aggregator ?G
                (tag_source ''yolo'' (sample_yolo_detections ! i)) = Inr (Some (m, idx))}"
      and y: "\<forall>i<length sample_yolo_detections. i \<notin> my \<longrightarrow>
         (tag_source ''yolo'' (sample_yolo_detections ! i) \<in> set pool)
           = (7 / 10 < confidence (sample_yolo_detections ! i))"
      and g: "\<forall>j<length sample_gpt_detections. int j \<notin> mg \<longrightarrow>
         (tag_source ''gpt'' (sample_gpt_detections ! j) \<in> set pool)
           = (7 / 10 < confidence (sample_gpt_detections ! j))"
      and g': "\<forall>j<length sample_gpt_detections.
         int j \<notin> mg \<and> confidence (sample_gpt_detections ! j) \<le> 7 / 10 \<longrightarrow>
           tag_source ''gpt'' (sample_gpt_detections ! j) \<notin> set ?final"
    by blast
  have n1: "1 \<notin> my"
    unfolding my using m1 by simp
  have n2: "int 1 \<notin> mg"
  proof
    assume "int 1 \<in> mg"
    then obtain i m where i: "i < 2"
        "match_one default_aggregator ?G (tag_source ''yolo'' (sample_yolo_detections ! i))
           = Inr (Some (m, int 1))"
      unfolding mg len by blast
    from i(1) consider "i = 0" | "i = 1" by linarith
    then show False
    proof cases
      case 1
      with i(2) m0 show False by auto
    next
      case 2
      with i(2) m1 show False by simp
    qed
  qed
  from y n1 c(1) len have w1: "tag_source ''yolo'' (sample_yolo_detections ! 1) \<in> set pool"
    by simp
  from g n2 c(2) len have w2: "tag_source ''gpt'' (sample_gpt_detections ! 1) \<notin> set pool"
    by simp
  from g' n2 c(2) len have w3: "tag_source ''gpt'' (sample_gpt_detections ! 1) \<notin> set ?final"
    by simp
  from cp n1 n2 w1 w2 w3 show ?thesis
    by (intro exI [of _ pool] exI [of _ my] exI [of _ mg] conjI)
qed

section \<open>The result of aggregate\<close>

text \<open>
  C2, amended. For a threshold that is not negative, a list \<open>A\<close> of one detection of
  confidence 0.85 and an empty \<open>B\<close>: \<open>aggregate\<close> returns a list of one detection, the
  input detection with its source set to \<^verbatim>\<open>'yolo'\<close> and every other field as it was. The
  detection is stamped in place, so the result is the list \<open>A\<close> as the call leaves it.
\<close>

theorem aggregate_single_yolo:
  assumes "confidence d = 85 / 100" "0 \<le> iou_threshold self"
  shows "aggregate self [d] [] =
           (Inr [d\<lparr>source := Some ''yolo''\<rparr>], [d\<lparr>source := Some ''yolo''\<rparr>], [])"
  using assms
  by (simp add: aggregate_def candidate_pool_def match_one_def unmatched_yolo_def
        unmatched_gpt_def tag_source_def apply_nms_def nms_filter_def Let_def)

theorem aggregate_single_yolo_witness:
  "aggregate default_aggregator [raw_detection ''damaged_rivet'' (85 / 100) 100 100 50 50] [] =
     (Inr [(raw_detection ''damaged_rivet'' (85 / 100) 100 100 50 50)\<lparr>source := Some ''yolo''\<rparr>],
      [(raw_detection ''damaged_rivet'' (85 / 100) 100 100 50 50)\<lparr>source := Some ''yolo''\<rparr>], [])"
proof -
  have h1: "confidence (raw_detection ''damaged_rivet'' (85 / 100) 100 100 50 50) = 85 / 100"
    by (simp add: raw_detection_def)
  have h2: "0 \<le> iou_threshold default_aggregator"
    by (simp add: default_aggregator_def)
  from h1 h2 show ?thesis
    by (rule aggregate_single_yolo)
qed

text \<open>
  C2 as stated fails twice. A detection as the YOLO adapter hands it over has no source:
  the detection returned carries the source \<^verbatim>\<open>'yolo'\<close> and differs from it. And with the
  threshold \<open>-0.1\<close> the best IoU 0 exceeds the threshold with no match at hand, and
  \<open>aggregate\<close> raises.
\<close>

theorem aggregate_single_yolo_counterexample:
  "fst (aggregate default_aggregator [raw_detection ''damaged_rivet'' (85 / 100) 100 100 50 50] [])
     \<noteq> Inr [raw_detection ''damaged_rivet'' (85 / 100) 100 100 50 50] \<and>
   fst (aggregate \<lparr>yolo_weight = 6 / 10, gpt_weight = 4 / 10, iou_threshold = - (1 / 10),
                    nms_threshold = 4 / 10\<rparr>
          [raw_detection ''damaged_rivet'' (85 / 100) 100 100 50 50] [])
     = Inl (Exception ''Ensemble aggregation failed'')"
  by (simp add: eval_defs)

text \<open>
  C10. The list \<open>aggregate\<close> returns is sorted by confidence, highest first.
\<close>

theorem aggregate_sorted_by_confidence:
  assumes "fst (aggregate self yolo_results gpt_results) = Inr final_detections"
  shows "sorted_wrt (\<lambda>a b. confidence b \<le> confidence a) final_detections"
proof -
  from assms obtain pool where "final_detections = apply_nms self pool"
    by (auto simp: aggregate_def Let_def split: sum.splits)
  then show ?thesis
    by (simp add: apply_nms_sorted)
qed

theorem aggregate_sorted_by_confidence_witness:
  "fst (aggregate default_aggregator sample_yolo_detections sample_gpt_detections) =
     Inr [\<lparr>cls = ''damaged_rivet'', confidence = 83 / 100,
           bbox = \<lparr>bbox_x = 102, bbox_y = 152, bbox_width = 49, bbox_height = 59\<rparr>,
           source = Some ''ensemble'', description = None\<rparr>,
          \<lparr>cls = ''missing_rivet'', confidence = 75 / 100,
           bbox = \<lparr>bbox_x = 200, bbox_y = 250, bbox_width = 40, bbox_height = 50\<rparr>,
           source = Some ''yolo'', description = None\<rparr>] \<and>
   sorted_wrt (\<lambda>a b. confidence b \<le> confidence a)
     [\<lparr>cls = ''damaged_rivet'', confidence = 83 / 100,
           bbox = \<lparr>bbox_x = 102, bbox_y = 152, bbox_width = 49, bbox_height = 59\<rparr>,
           source = Some ''ensemble'', description = None\<rparr>,
          \<lparr>cls = ''missing_rivet'', confidence = 75 / 100,
           bbox = \<lparr>bbox_x = 200, bbox_y = 250, bbox_width = 40, bbox_height = 50\<rparr>,
           source = Some ''yolo'', description = None\<rparr>]"
proof -
  have e: "fst (aggregate default_aggregator sample_yolo_detections sample_gpt_detections) =
     Inr [\<lparr>cls = ''damaged_rivet'', confidence = 83 / 100,
           bbox = \<lparr>bbox_x = 102, bbox_y = 152, bbox_width = 49, bbox_height = 59\<rparr>,
           source = Some ''ensemble'', description = None\<rparr>,
          \<lparr>cls = ''missing_rivet'', confidence = 75 / 100,
           bbox = \<lparr>bbox_x = 200, bbox_y = 250, bbox_width = 40, bbox_height = 50\<rparr>,
           source = Some ''yolo'', description = None\<rparr>]"
    by (simp add: eval_defs)
  from e aggregate_sorted_by_confidence [OF e] show ?thesis
    by simp
qed

section \<open>Parsing the GPT response\<close>

lemma parse_detection_dropped:
  assumes "map_of items ''class'' = None \<or> map_of items ''confidence'' = None \<or>
           map_of items ''bbox'' = None \<or>
           (\<forall>name \<in> set DEFECT_CLASSES. map_of items ''class'' \<noteq> Some (JStr name))"
  shows "parse_detection to_float to_int (JObj items) = Inr None"
  using assms
  by (auto simp: parse_detection_def split: option.splits json.splits)

lemma parse_detection_not_dict:
  assumes "\<forall>items. det \<noteq> JObj items"
  shows "parse_detection to_float to_int det = Inr None"
  using assms by (cases det) (simp_all add: parse_detection_def)

lemma parse_loop_append:
  "parse_loop to_float to_int (xs @ ys) acc =
     (case parse_loop to_float to_int xs acc of
        Inl e \<Rightarrow> Inl e
      | Inr acc' \<Rightarrow> parse_loop to_float to_int ys acc')"
  by (induction xs arbitrary: acc) (auto split: sum.splits option.splits)

lemma parse_loop_drop:
  assumes "parse_detection to_float to_int el = Inr None"
  shows "parse_loop to_float to_int (xs @ el # ys) acc = parse_loop to_float to_int (xs @ ys) acc"
  using assms by (simp add: parse_loop_append split: sum.splits)

lemma parse_loop_all_skipped:
  assumes "\<forall>det \<in> set dets. parse_detection to_float to_int det = Inr None"
  shows "parse_loop to_float to_int dets acc = Inr acc"
  using assms by (induction dets arbitrary: acc) auto

lemma parse_loop_kept:
  assumes "\<forall>det \<in> set dets. \<forall>e. parse_detection to_float to_int det \<noteq> Inl e"
  shows "parse_loop to_float to_int dets acc =
           Inr (acc @ List.map_filter
                  (\<lambda>det. case parse_detection to_float to_int det of Inr r \<Rightarrow> r | Inl e \<Rightarrow> None)
                  dets)"
  using assms
proof (induction dets arbitrary: acc)
  case Nil
  then show ?case by (simp add: map_filter_simps)
next
  case (Cons det dets)
  then show ?case
    by (cases "parse_detection to_float to_int det")
       (auto simp: map_filter_simps split: option.splits)
qed

lemma parse_response_not_array:
  assumes "loads (strip_code_fence strip response_text) = Inr v" "\<forall>xs. v \<noteq> JArr xs"
  shows "parse_response strip loads to_float to_int response_text = Inr []"
proof (cases "py_iter v")
  case (Inl e)
  with assms(1) show ?thesis
    by (simp add: parse_response_def parse_body_def)
next
  case (Inr dets)
  with assms(2) have "\<forall>det \<in> set dets. \<forall>items. det \<noteq> JObj items"
    by (cases v) (auto simp: py_iter_def)
  then have "\<forall>det \<in> set dets. parse_detection to_float to_int det = Inr None"
    using parse_detection_not_dict by blast
  then have "parse_loop to_float to_int dets [] = Inr []"
    by (rule parse_loop_all_skipped)
  with assms(1) Inr show ?thesis
    by (simp add: parse_response_def parse_body_def)
qed

text \<open>
  C7. \<open>parse_response\<close> never raises. An element of the array that is no dictionary,
  or lacks \<^verbatim>\<open>'class'\<close>, \<^verbatim>\<open>'confidence'\<close> or \<^verbatim>\<open>'bbox'\<close>, or whose class is not one of the
  twelve defect classes, is dropped: the response parses to what it would parse to without that
  element. When no element raises, the result is the detections of the elements that are
  not dropped, in order. When \<^verbatim>\<open>json.loads\<close> fails, or the decoded value is not an array,
  the result is the empty list.
\<close>

theorem parse_response_never_raises:
  "(\<exists>detections. parse_response strip loads to_float to_int response_text = Inr detections) \<and>
   (loads (strip_code_fence strip response_text) = Inr (JArr (xs @ el # ys)) \<and>
    loads (strip_code_fence strip response_text') = Inr (JArr (xs @ ys)) \<and>
    (\<forall>items. el = JObj items \<longrightarrow>
       map_of items ''class'' = None \<or> map_of items ''confidence'' = None \<or>
       map_of items ''bbox'' = None \<or>
       (\<forall>name \<in> set DEFECT_CLASSES. map_of items ''class'' \<noteq> Some (JStr name)))
      \<longrightarrow> parse_response strip loads to_float to_int response_text
            = parse_response strip loads to_float to_int response_text') \<and>
   (loads (strip_code_fence strip response_text) = Inr (JArr dets) \<and>
    (\<forall>det \<in> set dets. \<forall>e. parse_detection to_float to_int det \<noteq> Inl e)
      \<longrightarrow> parse_response strip loads to_float to_int response_text
            = Inr (List.map_filter
                     (\<lambda>det. case parse_detection to_float to_int det of
                               Inr r \<Rightarrow> r | Inl e \<Rightarrow> None) dets)) \<and>
   ((\<exists>e. loads (strip_code_fence strip response_text) = Inl e)
      \<longrightarrow> parse_response strip loads to_float to_int response_text = Inr []) \<and>
   (loads (strip_code_fence strip response_text) = Inr v \<and> (\<forall>vs. v \<noteq> JArr vs)
      \<longrightarrow> parse_response strip loads to_float to_int response_text = Inr [])"
proof (intro conjI impI)
  show "\<exists>detections. parse_response strip loads to_float to_int response_text = Inr detections"
    by (simp add: parse_response_def split: sum.splits)
next
  assume a: "loads (strip_code_fence strip response_text) = Inr (JArr (xs @ el # ys)) \<and>
    loads (strip_code_fence strip response_text') = Inr (JArr (xs @ ys)) \<and>
    (\<forall>items. el = JObj items \<longrightarrow>
       map_of items ''class'' = None \<or> map_of items ''confidence'' = None \<or>
       map_of items ''bbox'' = None \<or>
       (\<forall>name \<in> set DEFECT_CLASSES. map_of items ''class'' \<noteq> Some (JStr name)))"
  have "parse_detection to_float to_int el = Inr None"
  proof (cases "\<exists>items. el = JObj items")
    case True
    then obtain items where "el = JObj items" by blast
    with a show ?thesis
      using parse_detection_dropped [of items to_float to_int] by blast
  next
    case False
    then show ?thesis
      by (intro parse_detection_not_dict) blast
  qed
  then have "parse_loop to_float to_int (xs @ el # ys) []
               = parse_loop to_float to_int (xs @ ys) []"
    by (rule parse_loop_drop)
  with a show "parse_response strip loads to_float to_int response_text
            = parse_response strip loads to_float to_int response_text'"
    by (simp add: parse_response_def parse_body_def py_iter_def)
next
  assume a: "loads (strip_code_fence strip response_text) = Inr (JArr dets) \<and>
    (\<forall>det \<in> set dets. \<forall>e. parse_detection to_float to_int det \<noteq> Inl e)"
  then have "parse_loop to_float to_int dets [] =
           Inr ([] @ List.map_filter
                  (\<lambda>det. case parse_detection to_float to_int det of Inr r \<Rightarrow> r | Inl e \<Rightarrow> None)
                  dets)"
    by (intro parse_loop_kept) blast
  with a show "parse_response strip loads to_float to_int response_text
            = Inr (List.map_filter
                     (\<lambda>det. case parse_detection to_float to_int det of
                               Inr r \<Rightarrow> r | Inl e \<Rightarrow> None) dets)"
    by (simp add: parse_response_def parse_body_def py_iter_def)
next
  assume "\<exists>e. loads (strip_code_fence strip response_text) = Inl e"
  then show "parse_response strip loads to_float to_int response_text = Inr []"
    by (auto simp: parse_response_def parse_body_def)
next
  assume "loads (strip_code_fence strip response_text) = Inr v \<and> (\<forall>vs. v \<noteq> JArr vs)"
  then show "parse_response strip loads to_float to_int response_text = Inr []"
    using parse_response_not_array [of loads strip response_text v] by blast
qed

theorem parse_response_never_raises_witness:
  "parse_response (\<lambda>s. s) (table_loads sample_responses) number_to_float number_to_int
       ''invalid class, crack''
     = parse_response (\<lambda>s. s) (table_loads sample_responses) number_to_float number_to_int
         ''crack'' \<and>
   parse_response (\<lambda>s. s) (table_loads sample_responses) number_to_float number_to_int ''crack''
     = Inr [raw_detection ''crack'' (75 / 100) 200 250 40 50] \<and>
   parse_response (\<lambda>s. s) (table_loads sample_responses) number_to_float number_to_int
       ''This is not valid JSON'' = Inr [] \<and>
   parse_response (\<lambda>s. s) (table_loads sample_responses) number_to_float number_to_int ''3''
     = Inr []"
proof -
  let ?loads = "table_loads sample_responses"
  let ?bad = "[(''class'', JStr ''invalid_defect_type''), (''confidence'', JFloat (85 / 100)),
           (''bbox'', JObj [(''x'', JInt 100), (''y'', JInt 150), (''width'', JInt 50),
                            (''height'', JInt 60)])]"
  let ?good = "json_detection ''crack'' (75 / 100) 200 250 40 50"
  have l1: "?loads (strip_code_fence (\<lambda>s. s) ''invalid class, crack'')
              = Inr (JArr ([] @ JObj ?bad # [?good]))"
    by (simp add: strip_code_fence_def startswith_def endswith_def fence_def table_loads_def
          sample_responses_def json_detection_def Let_def)
  have l2: "?loads (strip_code_fence (\<lambda>s. s) ''crack'') = Inr (JArr ([] @ [?good]))"
    by (simp add: strip_code_fence_def startswith_def endswith_def fence_def table_loads_def
          sample_responses_def Let_def)
  have l2': "?loads (strip_code_fence (\<lambda>s. s) ''crack'') = Inr (JArr [?good])"
    using l2 by simp
  have l3: "\<exists>e. ?loads (strip_code_fence (\<lambda>s. s) ''This is not valid JSON'') = Inl e"
    by (simp add: strip_code_fence_def startswith_def endswith_def fence_def table_loads_def
          sample_responses_def Let_def)
  have l4: "?loads (strip_code_fence (\<lambda>s. s) ''3'') = Inr (JInt 3) \<and> (\<forall>vs. JInt 3 \<noteq> JArr vs)"
    by (simp add: strip_code_fence_def startswith_def endswith_def fence_def table_loads_def
          sample_responses_def Let_def)
  have d: "\<forall>items. JObj ?bad = JObj items \<longrightarrow>
     map_of items ''class'' = None \<or> map_of items ''confidence'' = None \<or>
     map_of items ''bbox'' = None \<or>
     (\<forall>name \<in> set DEFECT_CLASSES. map_of items ''class'' \<noteq> Some (JStr name))"
    by (simp add: DEFECT_CLASSES_def)
  have k: "\<forall>det \<in> set [?good]. \<forall>e. parse_detection number_to_float number_to_int det \<noteq> Inl e"
    by (simp add: parse_detection_def parse_bbox_def dict_get_def json_detection_def
          number_to_float_def number_to_int_def DEFECT_CLASSES_def)
  have v: "List.map_filter
             (\<lambda>det. case parse_detection number_to_float number_to_int det of
                       Inr r \<Rightarrow> r | Inl e \<Rightarrow> None) [?good]
           = [raw_detection ''crack'' (75 / 100) 200 250 40 50]"
    by (simp add: map_filter_simps parse_detection_def parse_bbox_def dict_get_def
          json_detection_def number_to_float_def number_to_int_def DEFECT_CLASSES_def
          raw_detection_def)
  note t1 = parse_response_never_raises
    [of "\<lambda>s. s" ?loads number_to_float number_to_int "''invalid class, crack''"
        "[]" "JObj ?bad" "[?good]" "''crack''"]
  note t2 = parse_response_never_raises
    [of "\<lambda>s. s" ?loads number_to_float number_to_int "''crack''" _ _ _ _ "[?good]"]
  note t3 = parse_response_never_raises
    [of "\<lambda>s. s" ?loads number_to_float number_to_int "''This is not valid JSON''"]
  note t4 = parse_response_never_raises
    [of "\<lambda>s. s" ?loads number_to_float number_to_int "''3''" _ _ _ _ _ "JInt 3"]
  from t1 l1 l2 d have w1:
    "parse_response (\<lambda>s. s) ?loads number_to_float number_to_int ''invalid class, crack''
       = parse_response (\<lambda>s. s) ?loads number_to_float number_to_int ''crack''"
    by blast
  from t2 l2' k v have w2:
    "parse_response (\<lambda>s. s) ?loads number_to_float number_to_int ''crack''
       = Inr [raw_detection ''crack'' (75 / 100) 200 250 40 50]"
    by simp
  from t3 l3 have w3:
    "parse_response (\<lambda>s. s) ?loads number_to_float number_to_int ''This is not valid JSON''
       = Inr []"
    by blast
  from t4 l4 have w4:
    "parse_response (\<lambda>s. s) ?loads number_to_float number_to_int ''3'' = Inr []"
    by blast
  from w1 w2 w3 w4 show ?thesis
    by (intro conjI)
qed

section \<open>Image preprocessing\<close>

text \<open>
  C8. \<open>validate_dimensions\<close> returns \<open>True\<close> exactly when the width and the height both
  lie in \<open>[min_size, max_size]\<close>, bounds included, and raises a \<open>ValueError\<close> otherwise.
\<close>

theorem validate_dimensions_inclusive_range:
  "(validate_dimensions self (h, w) = Inr True) =
     (min_size self \<le> int w \<and> int w \<le> max_size self \<and>
      min_size self \<le> int h \<and> int h \<le> max_size self) \<and>
   (\<not> (min_size self \<le> int w \<and> int w \<le> max_size self \<and>
       min_size self \<le> int h \<and> int h \<le> max_size self)
     \<longrightarrow> (\<exists>msg. validate_dimensions self (h, w) = Inl (ValueError msg)))"
  by (auto simp: validate_dimensions_def Let_def)

theorem validate_dimensions_inclusive_range_witness:
  "validate_dimensions \<lparr>target_size = 640, min_size = 640, max_size = 4096\<rparr> (640, 4096)
     = Inr True \<and>
   (\<exists>msg. validate_dimensions \<lparr>target_size = 640, min_size = 640, max_size = 4096\<rparr> (320, 320)
     = Inl (ValueError msg)) \<and>
   (\<exists>msg. validate_dimensions \<lparr>target_size = 640, min_size = 640, max_size = 4096\<rparr> (4097, 640)
     = Inl (ValueError msg))"
  using validate_dimensions_inclusive_range
      [of "\<lparr>target_size = 640, min_size = 640, max_size = 4096\<rparr>" 640 4096]
    validate_dimensions_inclusive_range
      [of "\<lparr>target_size = 640, min_size = 640, max_size = 4096\<rparr>" 320 320]
    validate_dimensions_inclusive_range
      [of "\<lparr>target_size = 640, min_size = 640, max_size = 4096\<rparr>" 4097 640]
  by simp

lemma sum_list_bounds:
  fixes a :: "real list"
  assumes "\<forall>v \<in> set a. lo \<le> v \<and> v \<le> hi"
  shows "lo * of_nat (length a) \<le> sum_list a \<and> sum_list a \<le> hi * of_nat (length a)"
  using assms by (induction a) (auto simp: algebra_simps)

lemma np_mean_bounds:
  assumes "a \<noteq> []" "\<forall>v \<in> set a. lo \<le> v \<and> v \<le> hi"
  shows "lo \<le> np_mean a \<and> np_mean a \<le> hi"
proof -
  have pos: "0 < (of_nat (length a) :: real)"
    using assms(1) by simp
  from sum_list_bounds [OF assms(2)] pos show ?thesis
    unfolding np_mean_def by (simp add: pos_le_divide_eq pos_divide_le_eq)
qed

lemma np_var_nonneg: "0 \<le> np_var a"
  unfolding np_var_def np_mean_def
  by (intro divide_nonneg_nonneg sum_list_nonneg) auto

lemma sharpness_score_range: "0 \<le> sharpness_score l \<and> sharpness_score l \<le> 50"
  using np_var_nonneg [of l] by (simp add: sharpness_score_def Let_def min_def)

lemma gray_pixel_range:
  fixes p :: "8 word"
  shows "0 \<le> real (unat p) \<and> real (unat p) \<le> 255"
proof -
  have "unat p < 2 ^ LENGTH(8)"
    by (rule unsigned_less)
  then have "unat p \<le> 255"
    by simp
  then have "real (unat p) \<le> real 255"
    by (rule of_nat_mono)
  then show ?thesis
    by (simp del: of_nat_unat)
qed

lemma gray_mean_range:
  fixes gray :: "8 word list"
  assumes "gray \<noteq> []"
  shows "0 \<le> np_mean (map (\<lambda>p. real (unat p)) gray) \<and>
         np_mean (map (\<lambda>p. real (unat p)) gray) \<le> 255"
proof (rule np_mean_bounds)
  show "map (\<lambda>p. real (unat p)) gray \<noteq> []"
    using assms by simp
  show "\<forall>v \<in> set (map (\<lambda>p. real (unat p)) gray). 0 \<le> v \<and> v \<le> 255"
    using gray_pixel_range by (auto simp del: of_nat_unat)
qed

lemma brightness_score_range:
  assumes "gray \<noteq> []"
  shows "0 \<le> brightness_score gray \<and> brightness_score gray \<le> 50"
  using gray_mean_range [OF assms]
  by (simp add: brightness_score_def Let_def abs_real_def del: of_nat_unat)

text \<open>
  C9. For a decoded image (its gray array is not empty, and the Laplacian response has
  the shape of the gray array) the quality score lies in \<open>[0, 100]\<close>: the sharpness term
  is at most 50, the brightness term lies in \<open>[0, 50]\<close>, and the score is their sum.
\<close>

theorem calculate_quality_score_range:
  assumes "cvtColor img \<noteq> []"
    and "length (Laplacian (cvtColor img)) = length (cvtColor img)"
  shows "0 \<le> calculate_quality_score cvtColor Laplacian img \<and>
         calculate_quality_score cvtColor Laplacian img \<le> 100 \<and>
         sharpness_score (Laplacian (cvtColor img)) \<le> 50 \<and>
         0 \<le> brightness_score (cvtColor img) \<and>
         brightness_score (cvtColor img) \<le> 50 \<and>
         calculate_quality_score cvtColor Laplacian img =
           sharpness_score (Laplacian (cvtColor img)) + brightness_score (cvtColor img)"
  using sharpness_score_range [of "Laplacian (cvtColor img)"]
    brightness_score_range [OF assms(1)]
  by (simp add: calculate_quality_score_def Let_def)

theorem calculate_quality_score_range_witness:
  "0 \<le> calculate_quality_score (\<lambda>i. i) (\<lambda>g. [4, -8, 4, 0]) [128, 127, 130, 255 :: 8 word] \<and>
   calculate_quality_score (\<lambda>i. i) (\<lambda>g. [4, -8, 4, 0]) [128, 127, 130, 255 :: 8 word] \<le> 100"
  using calculate_quality_score_range
    [of "\<lambda>i. i" "[128, 127, 130, 255 :: 8 word]" "\<lambda>g. [4, -8, 4, 0]"]
  by simp

end
